theory Spec2Isabelle
  imports Complex_Main "HOL-Library.Log_Nat"
begin

section \<open>Numbers\<close>

text \<open>
  The calculator is JavaScript: every number is an IEEE double, and every arithmetic
  operation returns the double nearest to the exact result, a tie going to the double
  with the even mantissa. The results are rounded up to integers by \<open>Math.ceil\<close>, so a
  last bit decides them: at prevalence 10 and precision 3 the exact quotient is 400 and
  the quotient of the doubles is 400.00000000000006, which \<open>Math.ceil\<close> takes to 401.
  The sample-size formulas are therefore modelled with the rounding of each operation.

  A double is a real number here. \<open>dexp x\<close> is the binary exponent of \<open>x\<close>, the \<open>e\<close>
  with \<open>2\<^sup>e \<le> |x| < 2\<^sup>e\<^sup>+\<^sup>1\<close>; a double of that binade is a multiple of \<open>2\<^sup>e\<^sup>-\<^sup>5\<^sup>2\<close>, and
  \<open>rd x\<close> is the nearest one. The range of the exponent is not modelled: \<open>rd\<close> is
  the rounding of IEEE arithmetic for results in the normal range, from \<open>2\<^sup>-\<^sup>1\<^sup>0\<^sup>2\<^sup>2\<close>
  up to \<open>2\<^sup>1\<^sup>0\<^sup>2\<^sup>4\<close>, where neither overflow nor gradual underflow occurs.
\<close>

definition dexp :: "real \<Rightarrow> int" where
  "dexp x =
    (let a = \<bar>x\<bar>
     in if 1 \<le> a then bitlen \<lfloor>a\<rfloor> - 1 else - bitlen (\<lceil>1 / a\<rceil> - 1))"

definition round_even :: "real \<Rightarrow> int" where
  "round_even y =
    (let f = \<lfloor>y\<rfloor>; d = y - real_of_int f
     in if d < 1 / 2 then f
        else if 1 / 2 < d then f + 1
        else if even f then f else f + 1)"

definition rd :: "real \<Rightarrow> real" where
  "rd x =
    (if x = 0 then 0
     else let u = 2 powi (dexp x - 52)
          in real_of_int (round_even (x / u)) * u)"

text \<open>
  The operations \<open>+\<close>, \<open>-\<close>, \<open>*\<close>, \<open>/\<close> of doubles, \<open>Math.sqrt\<close>, and
  \<open>Math.pow(x, 2)\<close>, which is taken to return the correctly rounded square, as \<open>x * x\<close>
  does. A decimal literal of the source denotes the nearest double: \<open>0.9\<close> is
  \<open>rd 0.9\<close>. Integers below \<open>2\<^sup>5\<^sup>3\<close> are doubles; \<open>Math.ceil\<close> is \<^const>\<open>ceiling\<close> and
  \<open>Math.floor\<close> is \<^const>\<open>floor\<close>, both exact.
\<close>

definition dadd :: "real \<Rightarrow> real \<Rightarrow> real" where
  "dadd x y = rd (x + y)"

definition dsub :: "real \<Rightarrow> real \<Rightarrow> real" where
  "dsub x y = rd (x - y)"

definition dmul :: "real \<Rightarrow> real \<Rightarrow> real" where
  "dmul x y = rd (x * y)"

definition ddiv :: "real \<Rightarrow> real \<Rightarrow> real" where
  "ddiv x y = rd (x / y)"

definition dsqrt :: "real \<Rightarrow> real" where
  "dsqrt x = rd (sqrt x)"

definition dpow2 :: "real \<Rightarrow> real" where
  "dpow2 x = rd (x * x)"

text \<open>
  A division by zero yields \<open>Infinity\<close> or \<open>NaN\<close> in JavaScript and \<open>0\<close> in HOL, and the
  square root of a negative number is \<open>NaN\<close>: the theorems about the formulas establish
  that the divisors are not zero and the arguments of the square roots not negative under
  their hypotheses. Where a zero divisor is within reach (the grid's scale), the
  definition returns \<open>Infinity\<close> explicitly.

  The guards of the calculators and the layout of the grid are stated over the exact
  values of their inputs.

  \<open>x || d\<close> on numbers picks \<open>d\<close> when \<open>x\<close> is falsy, that is \<open>0\<close> (or \<open>NaN\<close>,
  \<open>undefined\<close>, which are not finite numbers).
\<close>

definition js_or :: "real \<Rightarrow> real \<Rightarrow> real" where
  "js_or x d = (if x = 0 then d else x)"

definition js_or_int :: "int \<Rightarrow> int \<Rightarrow> int" where
  "js_or_int x d = (if x = 0 then d else x)"

section \<open>Z-score tables\<close>

text \<open>
  \<open>Z_MAP\<close> and \<open>Z_ALPHA_MAP\<close> are object literals keyed by the integers shown; a lookup
  \<open>Z_MAP[p]\<close> with a number \<open>p\<close> finds an entry exactly when \<open>p\<close> equals one of the
  keys, and is \<open>undefined\<close> (here \<open>None\<close>) otherwise.
\<close>

definition Z_MAP :: "(real \<times> real) list" where
  "Z_MAP =
    [(80, 0.842), (81, 0.878), (82, 0.915), (83, 0.954), (84, 0.994),
     (85, 1.036), (86, 1.080), (87, 1.126), (88, 1.175), (89, 1.227),
     (90, 1.282), (91, 1.341), (92, 1.405), (93, 1.476), (94, 1.555),
     (95, 1.645), (96, 1.751), (97, 1.881), (98, 2.054), (99, 2.326)]"

definition Z_ALPHA_MAP :: "(real \<times> real) list" where
  "Z_ALPHA_MAP = [(90, 1.645), (95, 1.96), (98, 2.326), (99, 2.576)]"

text \<open>\<open>return Z_MAP[p] || 0.842;\<close>\<close>

definition getZBeta :: "real \<Rightarrow> real" where
  "getZBeta p = (case map_of Z_MAP p of None \<Rightarrow> 0.842 | Some z \<Rightarrow> js_or z 0.842)"

text \<open>
  \<open>if (Z_ALPHA_MAP[c]) return Z_ALPHA_MAP[c];\<close> followed by the three range tests and the
  final \<open>return 2.576\<close>.
\<close>

definition getZAlpha_range :: "real \<Rightarrow> real" where
  "getZAlpha_range c =
    (if c < 95 then 1.645
     else if c < 98 then 1.96
     else if c < 99 then 2.326
     else 2.576)"

definition getZAlpha :: "real \<Rightarrow> real" where
  "getZAlpha c =
    (case map_of Z_ALPHA_MAP c of
       None \<Rightarrow> getZAlpha_range c
     | Some z \<Rightarrow> if z \<noteq> 0 then z else getZAlpha_range c)"

section \<open>The comparative estimator\<close>

text \<open>
  One method's estimate \<open>{ n1, n2, total }\<close> and the object of the three methods that
  \<open>calculateAdvanced\<close> returns. The fields carry a prefix, since \<open>n1\<close>, \<open>n2\<close> and
  \<open>total\<close> are needed as variable names.
\<close>

record estimate =
  est_n1 :: int
  est_n2 :: int
  est_total :: int

record methods =
  kelsey :: estimate
  fleiss :: estimate
  fleiss_cc :: estimate

text \<open>
  \<open>if (dropout) { n1 = Math.ceil(n1 / 0.9); }\<close>, applied to each method's rounded \<open>n1\<close>,
  and the object literal \<open>{ n1: n1, n2: Math.ceil(n1 * r), total: n1 + Math.ceil(n1 * r) }\<close>.
\<close>

definition apply_dropout :: "bool \<Rightarrow> int \<Rightarrow> int" where
  "apply_dropout dropout n =
    (if dropout then \<lceil>ddiv (real_of_int n) (rd 0.9)\<rceil> else n)"

definition group_estimate :: "int \<Rightarrow> real \<Rightarrow> estimate" where
  "group_estimate n r =
    \<lparr>est_n1 = n, est_n2 = \<lceil>dmul (real_of_int n) r\<rceil>,
     est_total = n + \<lceil>dmul (real_of_int n) r\<rceil>\<rparr>"

text \<open>
  \<open>calculateAdvanced\<close>, constant by constant, each operation rounded. The z-scores are
  the doubles of the decimals in the tables.
\<close>

definition calculateAdvanced ::
  "real \<Rightarrow> real \<Rightarrow> real \<Rightarrow> real \<Rightarrow> real \<Rightarrow> bool \<Rightarrow> methods" where
  "calculateAdvanced p1 p2 ratio alpha beta dropout =
    (let r = js_or ratio 1;
         za = rd (getZAlpha (dmul (dsub 1 alpha) 100));
         zb = rd (getZBeta (dmul (dsub 1 beta) 100));
         p_avg = ddiv (dadd p1 (dmul r p2)) (dadd 1 r);
         p1_q1 = dmul p1 (dsub 1 p1);
         p2_q2 = dmul p2 (dsub 1 p2);
         p_avg_q_avg = dmul p_avg (dsub 1 p_avg);
         kelsey_num = dmul (dmul (dpow2 (dadd za zb)) p_avg_q_avg) (dadd r 1);
         kelsey_den = dmul r (dpow2 (dsub p1 p2));
         n1_kelsey = \<lceil>ddiv kelsey_num kelsey_den\<rceil>;
         term1 = dmul za (dsqrt (dmul (dadd r 1) p_avg_q_avg));
         term2 = dmul zb (dsqrt (dadd (dmul r p1_q1) p2_q2));
         fleiss_num = dpow2 (dadd term1 term2);
         fleiss_den = dmul r (dpow2 (dsub p1 p2));
         n1_fleiss = \<lceil>ddiv fleiss_num fleiss_den\<rceil>;
         n1_uncorrected = ddiv fleiss_num fleiss_den;
         cc_term = ddiv (dmul 2 (dadd r 1)) (dmul (dmul n1_uncorrected r) \<bar>dsub p1 p2\<bar>);
         n1_cc = dmul (ddiv n1_uncorrected 4) (dpow2 (dadd 1 (dsqrt (dadd 1 cc_term))));
         n1_fleiss_cc = \<lceil>n1_cc\<rceil>
     in \<lparr>kelsey = group_estimate (apply_dropout dropout n1_kelsey) r,
         fleiss = group_estimate (apply_dropout dropout n1_fleiss) r,
         fleiss_cc = group_estimate (apply_dropout dropout n1_fleiss_cc) r\<rparr>)"

text \<open>
  The exact values that the constants of \<open>calculateAdvanced\<close> round, each under its
  source name, as functions of what they are computed from (\<open>r\<close> is the ratio after
  \<open>parseFloat(ratio) || 1\<close>): the pooled average, the divisors, and the arguments of
  \<open>Math.sqrt\<close> in \<open>term1\<close>, \<open>term2\<close> and \<open>n1_cc\<close>. Rounding keeps the sign of a
  number and keeps zero apart from the other numbers, so the sign of a square root's
  argument and the vanishing of a divisor can be read off the exact values.
\<close>

definition p_avg :: "real \<Rightarrow> real \<Rightarrow> real \<Rightarrow> real" where
  "p_avg p1 p2 r = (p1 + r * p2) / (1 + r)"

definition p_avg_q_avg :: "real \<Rightarrow> real \<Rightarrow> real \<Rightarrow> real" where
  "p_avg_q_avg p1 p2 r = p_avg p1 p2 r * (1 - p_avg p1 p2 r)"

definition kelsey_den :: "real \<Rightarrow> real \<Rightarrow> real \<Rightarrow> real" where
  "kelsey_den p1 p2 r = r * (p1 - p2)\<^sup>2"

definition term1_arg :: "real \<Rightarrow> real \<Rightarrow> real \<Rightarrow> real" where
  "term1_arg p1 p2 r = (r + 1) * p_avg_q_avg p1 p2 r"

definition term2_arg :: "real \<Rightarrow> real \<Rightarrow> real \<Rightarrow> real" where
  "term2_arg p1 p2 r = (r * (p1 * (1 - p1))) + p2 * (1 - p2)"

definition term1 :: "real \<Rightarrow> real \<Rightarrow> real \<Rightarrow> real \<Rightarrow> real" where
  "term1 za p1 p2 r = za * sqrt (term1_arg p1 p2 r)"

definition term2 :: "real \<Rightarrow> real \<Rightarrow> real \<Rightarrow> real \<Rightarrow> real" where
  "term2 zb p1 p2 r = zb * sqrt (term2_arg p1 p2 r)"

definition fleiss_num :: "real \<Rightarrow> real \<Rightarrow> real \<Rightarrow> real \<Rightarrow> real \<Rightarrow> real" where
  "fleiss_num za zb p1 p2 r = (term1 za p1 p2 r + term2 zb p1 p2 r)\<^sup>2"

definition fleiss_den :: "real \<Rightarrow> real \<Rightarrow> real \<Rightarrow> real" where
  "fleiss_den p1 p2 r = r * (p1 - p2)\<^sup>2"

definition n1_uncorrected :: "real \<Rightarrow> real \<Rightarrow> real \<Rightarrow> real \<Rightarrow> real \<Rightarrow> real" where
  "n1_uncorrected za zb p1 p2 r = fleiss_num za zb p1 p2 r / fleiss_den p1 p2 r"

definition cc_den :: "real \<Rightarrow> real \<Rightarrow> real \<Rightarrow> real \<Rightarrow> real \<Rightarrow> real" where
  "cc_den za zb p1 p2 r = n1_uncorrected za zb p1 p2 r * r * \<bar>p1 - p2\<bar>"

definition cc_term :: "real \<Rightarrow> real \<Rightarrow> real \<Rightarrow> real \<Rightarrow> real \<Rightarrow> real" where
  "cc_term za zb p1 p2 r = 2 * (r + 1) / cc_den za zb p1 p2 r"

definition cc_arg :: "real \<Rightarrow> real \<Rightarrow> real \<Rightarrow> real \<Rightarrow> real \<Rightarrow> real" where
  "cc_arg za zb p1 p2 r = 1 + cc_term za zb p1 p2 r"

text \<open>
  Every argument of \<open>Math.sqrt\<close> and every divisor of \<open>calculateAdvanced\<close>, in exact
  values. With finite inputs, a \<open>NaN\<close> or an \<open>Infinity\<close> can only come from the square
  root of a negative number or from a division by zero, so the computation stays within
  the finite numbers when the former are non-negative and the latter are not zero.
\<close>

definition sqrt_args :: "real \<Rightarrow> real \<Rightarrow> real \<Rightarrow> real \<Rightarrow> real \<Rightarrow> real list" where
  "sqrt_args za zb p1 p2 r = [term1_arg p1 p2 r, term2_arg p1 p2 r, cc_arg za zb p1 p2 r]"

definition divisors :: "real \<Rightarrow> real \<Rightarrow> real \<Rightarrow> real \<Rightarrow> real \<Rightarrow> real list" where
  "divisors za zb p1 p2 r =
    [1 + r, kelsey_den p1 p2 r, fleiss_den p1 p2 r, cc_den za zb p1 p2 r]"

definition finite_run :: "real \<Rightarrow> real \<Rightarrow> real \<Rightarrow> real \<Rightarrow> real \<Rightarrow> bool" where
  "finite_run za zb p1 p2 r \<longleftrightarrow>
    list_all (\<lambda>x. 0 \<le> x) (sqrt_args za zb p1 p2 r) \<and>
    list_all (\<lambda>x. x \<noteq> 0) (divisors za zb p1 p2 r)"

section \<open>The design calculators\<close>

text \<open>
  A \<open>calc\<close> of \<open>MODES\<close> reads the fields of the \<open>state\<close> object; here they are its
  arguments (\<open>power_pct\<close> is \<open>state.power\<close>, \<open>or_input\<close> is \<open>state.or\<close>).
  \<open>parseFloat\<close> of a number is that number, and \<open>parseInt\<close> is applied to the integer
  percentages of two sliders, where it is the identity.

  The returned objects: the early returns \<open>{ n: \<dots>, display: \<dots>, table: null }\<close>, whose
  \<open>n\<close> is a number or the string \<open>'Error'\<close>, and the computed result
  \<open>{ n, display, table, visualData }\<close>. The display string of a computed result (the
  inputs formatted by \<open>toFixed\<close>) is not modelled.
\<close>

datatype nval = Number int | Text string

record visual =
  vis_n1 :: int
  vis_n2 :: int
  label1 :: string
  label2 :: string

datatype calc_result =
  Early nval string
| Computed int methods visual

text \<open>The three early returns, under the names the specification gives them.\<close>

definition InfiniteSampleSize :: calc_result where
  "InfiniteSampleSize = Early (Number 0) ''OR=1 implies no effect. N is infinite.''"

definition ImpossibleInputs :: calc_result where
  "ImpossibleInputs =
    Early (Text ''Error'') ''Impossible inputs: P1 > 100%. Lower Baseline or OR.''"


text \<open>
  \<open>MODES['prevalence'].calc\<close>: the \<open>n\<close> of the returned object. \<open>state.popSize\<close> is
  a population size, an integer, so that \<open>parseInt(state.popSize)\<close> is \<open>popSize\<close> itself.
\<close>

definition prevalence_calc :: "real \<Rightarrow> real \<Rightarrow> bool \<Rightarrow> bool \<Rightarrow> int \<Rightarrow> int" where
  "prevalence_calc prevalence precision fpc dropout popSize =
    (let P = ddiv prevalence 100;
         Q = dsub 1 P;
         D = ddiv precision 100;
         n = ddiv (dmul (dmul 4 P) Q) (dmul D D);
         n' = (if fpc \<and> popSize > 0
               then (let pop = popSize in ddiv n (dadd 1 (ddiv n (real_of_int pop))))
               else n);
         n'' = (if dropout then ddiv n' (rd 0.9) else n')
     in \<lceil>n''\<rceil>)"

text \<open>
  The correction pipeline in the words of the specification (its section 4.2), on its
  type \<open>float\<close>: \<open>applyFPC(n, population)\<close> returns \<open>n / (1 + n/population)\<close> when
  \<open>population > 0\<close> and \<open>n\<close> otherwise, \<open>applyDropout(n, enabled)\<close> returns
  \<open>n / 0.9\<close> when enabled and \<open>n\<close> otherwise. The calculator is compared with them.
\<close>

definition spec_applyFPC :: "real \<Rightarrow> int \<Rightarrow> real" where
  "spec_applyFPC n population =
    (if population > 0 then ddiv n (dadd 1 (ddiv n (real_of_int population))) else n)"

definition spec_applyDropout :: "real \<Rightarrow> bool \<Rightarrow> real" where
  "spec_applyDropout n enabled = (if enabled then ddiv n (rd 0.9) else n)"

text \<open>\<open>MODES['case-control'].calc\<close>\<close>

definition derived_P1 :: "real \<Rightarrow> real \<Rightarrow> real" where
  "derived_P1 OR P0 = (OR * P0) / (1 + P0 * (OR - 1))"

definition caseControl_calc ::
  "real \<Rightarrow> real \<Rightarrow> real \<Rightarrow> int \<Rightarrow> int \<Rightarrow> bool \<Rightarrow> calc_result" where
  "caseControl_calc p_controls or_input ratio power_pct confidence dropout =
    (let P0 = p_controls / 100;
         OR = or_input;
         r = js_or ratio 1;
         conf = js_or_int confidence 95;
         alpha = (100 - real_of_int conf) / 100;
         beta = (100 - real_of_int power_pct) / 100
     in if \<bar>OR - 1\<bar> < 0.001 then InfiniteSampleSize
        else let P1 = derived_P1 OR P0
          in if P1 > 0.999 then ImpossibleInputs
             else let results = calculateAdvanced P1 P0 r alpha beta dropout
               in Computed (est_total (fleiss results)) results
                    \<lparr>vis_n1 = est_n2 (fleiss results), vis_n2 = est_n1 (fleiss results),
                     label1 = ''Controls'', label2 = ''Cases''\<rparr>)"



section \<open>The population grid\<close>

text \<open>
  The layout part of \<open>drawPopulationGrid\<close>: the choice of the cell size, the scale and
  the two numbers of dots. \<open>getCapacity\<close> closes over \<open>groupW\<close> and \<open>groupH\<close>, which
  are arguments here.

  The layout is modelled for a drawing area of positive width and height. There the only
  value that is not finite is the scale \<open>Math.ceil(maxN / 0)\<close> of an area that holds not
  even one cell of 3 pixels: it is \<open>Infinity\<close>, and \<open>Math.ceil(n / Infinity)\<close> is \<open>0\<close>.
\<close>

datatype scale_value = Finite int | Infinity

record GridLayout =
  bestCellSize :: int
  scale :: scale_value
  sN1 :: int
  sN2 :: int

definition PRESET_SIZES :: "int list" where
  "PRESET_SIZES = [20, 15, 12, 10, 8, 6, 5, 4, 3]"

definition getCapacity :: "real \<Rightarrow> real \<Rightarrow> int \<Rightarrow> int" where
  "getCapacity groupW groupH cellSize =
    (let cols = \<lfloor>groupW / real_of_int cellSize\<rfloor>;
         rows = \<lfloor>groupH / real_of_int cellSize\<rfloor>
     in cols * rows)"

text \<open>
  \<open>for (let size of PRESET_SIZES) { if (maxN <= getCapacity(size)) { bestCellSize = size; break; } }\<close>
  starting from \<open>bestCellSize = 0\<close>.
\<close>

fun findCellSize :: "real \<Rightarrow> real \<Rightarrow> int \<Rightarrow> int list \<Rightarrow> int" where
  "findCellSize groupW groupH maxN [] = 0"
| "findCellSize groupW groupH maxN (size_px # sizes) =
    (if maxN \<le> getCapacity groupW groupH size_px then size_px
     else findCellSize groupW groupH maxN sizes)"

definition ceil_div :: "int \<Rightarrow> scale_value \<Rightarrow> int" where
  "ceil_div n s =
    (case s of Finite k \<Rightarrow> \<lceil>real_of_int n / real_of_int k\<rceil> | Infinity \<Rightarrow> 0)"

definition packGrid :: "real \<Rightarrow> real \<Rightarrow> int \<Rightarrow> int \<Rightarrow> GridLayout" where
  "packGrid groupW groupH n1 n2 =
    (let maxN = max n1 n2;
         found = findCellSize groupW groupH maxN PRESET_SIZES;
         best = (if found = 0 then 3 else found);
         sc = (if found = 0
               then (let maxCap = getCapacity groupW groupH 3
                     in if maxCap = 0 then Infinity
                        else Finite \<lceil>real_of_int maxN / real_of_int maxCap\<rceil>)
               else Finite 1)
     in \<lparr>bestCellSize = best, scale = sc, sN1 = ceil_div n1 sc, sN2 = ceil_div n2 sc\<rparr>)"

text \<open>
  \<open>drawPopulationGrid(ctx, w, h, data)\<close> up to the numbers of dots it draws, with
  \<open>data.n1\<close> and \<open>data.n2\<close> as arguments.
\<close>

definition drawPopulationGrid :: "real \<Rightarrow> real \<Rightarrow> int \<Rightarrow> int \<Rightarrow> GridLayout" where
  "drawPopulationGrid w h data_n1 data_n2 =
    (let padding = 20;
         contentW = w - padding * 2;
         n1 = js_or_int data_n1 0;
         n2 = js_or_int data_n2 0;
         gap = 40;
         groupW = (contentW - gap) / 2;
         groupH = h - 80
     in packGrid groupW groupH n1 n2)"

section \<open>Facts about the tables and the estimator\<close>

lemma getZBeta_pos: "0 < getZBeta p"
  by (simp add: getZBeta_def Z_MAP_def js_or_def)

lemma getZAlpha_pos: "0 < getZAlpha c"
  by (simp add: getZAlpha_def Z_ALPHA_MAP_def getZAlpha_range_def)

lemma getZBeta_table:
  "map (\<lambda>k. getZBeta (real_of_int k)) [80..99] =
     [0.842, 0.878, 0.915, 0.954, 0.994, 1.036, 1.080, 1.126, 1.175, 1.227,
      1.282, 1.341, 1.405, 1.476, 1.555, 1.645, 1.751, 1.881, 2.054, 2.326]"
  by (simp add: upto.simps getZBeta_def Z_MAP_def js_or_def)

lemma getZBeta_default:
  assumes "x \<notin> real_of_int ` {80..99}"
  shows "getZBeta x = 0.842"
proof -
  have h: "x \<noteq> real_of_int k" if "80 \<le> k" "k \<le> 99" for k
    using assms that by auto
  have "x \<noteq> 80" "x \<noteq> 81" "x \<noteq> 82" "x \<noteq> 83" "x \<noteq> 84"
       "x \<noteq> 85" "x \<noteq> 86" "x \<noteq> 87" "x \<noteq> 88" "x \<noteq> 89"
       "x \<noteq> 90" "x \<noteq> 91" "x \<noteq> 92" "x \<noteq> 93" "x \<noteq> 94"
       "x \<noteq> 95" "x \<noteq> 96" "x \<noteq> 97" "x \<noteq> 98" "x \<noteq> 99"
    using h[of 80] h[of 81] h[of 82] h[of 83] h[of 84] h[of 85] h[of 86] h[of 87]
          h[of 88] h[of 89] h[of 90] h[of 91] h[of 92] h[of 93] h[of 94] h[of 95]
          h[of 96] h[of 97] h[of 98] h[of 99]
    by simp_all
  then show ?thesis by (simp add: getZBeta_def Z_MAP_def)
qed

lemma getZAlpha_exact:
  "getZAlpha 90 = 1.645 \<and> getZAlpha 95 = 1.96 \<and> getZAlpha 98 = 2.326 \<and> getZAlpha 99 = 2.576"
  by (simp add: getZAlpha_def Z_ALPHA_MAP_def)

lemma getZAlpha_banded:
  "k \<notin> {90, 95, 98, 99} \<Longrightarrow>
   getZAlpha (real_of_int k) =
     (if k < 95 then 1.645 else if k < 98 then 1.96 else if k < 99 then 2.326 else 2.576)"
  by (simp add: getZAlpha_def Z_ALPHA_MAP_def getZAlpha_range_def)

lemma p_avg_bounds:
  assumes "0 < p1" "p1 < 1" "0 < p2" "p2 < 1" "0 < r"
  shows "0 < p_avg p1 p2 r" and "p_avg p1 p2 r < 1"
proof -
  have r1: "0 < 1 + r" using assms by simp
  have "0 < r * p2" using assms by simp
  then have "0 < p1 + r * p2" using assms by linarith
  then show "0 < p_avg p1 p2 r" using r1 by (simp add: p_avg_def)
  have "r * p2 < r" using assms by simp
  then have "p1 + r * p2 < 1 + r" using assms by linarith
  then show "p_avg p1 p2 r < 1" using r1 by (simp add: p_avg_def)
qed

lemma p_avg_q_avg_pos:
  assumes "0 < p1" "p1 < 1" "0 < p2" "p2 < 1" "0 < r"
  shows "0 < p_avg_q_avg p1 p2 r"
  using p_avg_bounds[OF assms] by (simp add: p_avg_q_avg_def)


lemma kelsey_den_pos: "p1 \<noteq> p2 \<Longrightarrow> 0 < r \<Longrightarrow> 0 < kelsey_den p1 p2 r"
  by (simp add: kelsey_den_def)

lemma fleiss_den_pos: "p1 \<noteq> p2 \<Longrightarrow> 0 < r \<Longrightarrow> 0 < fleiss_den p1 p2 r"
  by (simp add: fleiss_den_def)

lemma term1_arg_pos:
  assumes "0 < p1" "p1 < 1" "0 < p2" "p2 < 1" "0 < r"
  shows "0 < term1_arg p1 p2 r"
  using p_avg_q_avg_pos[OF assms] assms by (simp add: term1_arg_def)

lemma term2_arg_pos:
  assumes "0 < p1" "p1 < 1" "0 < p2" "p2 < 1" "0 < r"
  shows "0 < term2_arg p1 p2 r"
proof -
  have q: "0 < p1 * (1 - p1)" "0 < p2 * (1 - p2)" using assms by simp_all
  then have "0 < r * (p1 * (1 - p1))" using assms by simp
  then show ?thesis using q(2) by (simp add: term2_arg_def)
qed

lemma fleiss_num_pos:
  assumes "0 < p1" "p1 < 1" "0 < p2" "p2 < 1" "0 < r" "0 < za" "0 < zb"
  shows "0 < fleiss_num za zb p1 p2 r"
proof -
  have "0 < term1 za p1 p2 r"
    using term1_arg_pos[OF assms(1-5)] assms(6) by (simp add: term1_def)
  moreover have "0 < term2 zb p1 p2 r"
    using term2_arg_pos[OF assms(1-5)] assms(7) by (simp add: term2_def)
  ultimately have "0 < term1 za p1 p2 r + term2 zb p1 p2 r" by simp
  then show ?thesis by (simp add: fleiss_num_def)
qed

lemma cc_den_pos:
  assumes "0 < p1" "p1 < 1" "0 < p2" "p2 < 1" "0 < r" "0 < za" "0 < zb" "p1 \<noteq> p2"
  shows "0 < cc_den za zb p1 p2 r"
proof -
  have "0 < n1_uncorrected za zb p1 p2 r"
    using fleiss_num_pos[OF assms(1-7)] fleiss_den_pos[OF assms(8) assms(5)]
    by (simp add: n1_uncorrected_def)
  moreover have "0 < \<bar>p1 - p2\<bar>" using assms(8) by simp
  ultimately show ?thesis using assms(5) by (simp add: cc_den_def)
qed

text \<open>
  With both proportions strictly between 0 and 1, different, a positive ratio and positive
  z-scores, every square root is taken of a non-negative number and no divisor is zero.
\<close>

lemma finite_run_valid:
  assumes "0 < p1" "p1 < 1" "0 < p2" "p2 < 1" "0 < r" "0 < za" "0 < zb" "p1 \<noteq> p2"
  shows "finite_run za zb p1 p2 r"
proof -
  have d: "0 < cc_den za zb p1 p2 r" by (rule cc_den_pos[OF assms])
  have "0 < cc_term za zb p1 p2 r" using d assms(5) by (simp add: cc_term_def)
  then have "0 \<le> cc_arg za zb p1 p2 r" by (simp add: cc_arg_def)
  moreover have "0 \<le> term1_arg p1 p2 r" using term1_arg_pos[OF assms(1-5)] by simp
  moreover have "0 \<le> term2_arg p1 p2 r" using term2_arg_pos[OF assms(1-5)] by simp
  moreover have "1 + r \<noteq> 0" using assms(5) by simp
  moreover have "kelsey_den p1 p2 r \<noteq> 0" using kelsey_den_pos[OF assms(8) assms(5)] by simp
  moreover have "fleiss_den p1 p2 r \<noteq> 0" using fleiss_den_pos[OF assms(8) assms(5)] by simp
  moreover have "cc_den za zb p1 p2 r \<noteq> 0" using d by simp
  ultimately show ?thesis by (simp add: finite_run_def sqrt_args_def divisors_def)
qed

lemma derived_P1_bounds:
  assumes "0 < OR" "0 < P0" "P0 < 1"
  shows "1 + P0 * (OR - 1) = (1 - P0) + P0 * OR"
    and "0 < 1 + P0 * (OR - 1)"
    and "0 < derived_P1 OR P0"
    and "derived_P1 OR P0 < 1"
proof -
  show e: "1 + P0 * (OR - 1) = (1 - P0) + P0 * OR" by (simp add: algebra_simps)
  have "0 < P0 * OR" using assms by simp
  then have "0 < (1 - P0) + P0 * OR" using assms by linarith
  then show d: "0 < 1 + P0 * (OR - 1)" using e by simp
  have "0 < OR * P0" using assms by simp
  then show "0 < derived_P1 OR P0" using d by (simp add: derived_P1_def)
  have "OR * P0 < 1 + P0 * (OR - 1)" using assms by (simp add: algebra_simps)
  then show "derived_P1 OR P0 < 1" using d by (simp add: derived_P1_def)
qed

lemma derived_P1_neq:
  assumes "0 < OR" "0 < P0" "P0 < 1" "OR \<noteq> 1"
  shows "derived_P1 OR P0 \<noteq> P0"
proof
  assume "derived_P1 OR P0 = P0"
  moreover have d: "0 < 1 + P0 * (OR - 1)" using derived_P1_bounds(2)[OF assms(1-3)] .
  ultimately have "OR * P0 = P0 * (1 + P0 * (OR - 1))"
    by (simp add: derived_P1_def field_simps)
  then have "P0 * ((OR - 1) * (1 - P0)) = 0" by (simp add: algebra_simps)
  then show False using assms by simp
qed

section \<open>Facts about the grid\<close>

lemma findCellSize_none:
  "0 \<notin> set xs \<Longrightarrow>
   (findCellSize gw gh m xs = 0) = (\<forall>s\<in>set xs. \<not> m \<le> getCapacity gw gh s)"
  by (induction xs) auto

lemma findCellSize_fits:
  "findCellSize gw gh m xs \<noteq> 0 \<Longrightarrow>
   findCellSize gw gh m xs \<in> set xs \<and> m \<le> getCapacity gw gh (findCellSize gw gh m xs)"
  by (induction xs) (auto split: if_splits)

text \<open>In a strictly descending list the first size that fits is the largest one that fits.\<close>

lemma findCellSize_largest:
  "sorted_wrt (\<lambda>a b. b < a) xs \<Longrightarrow> t \<in> set xs \<Longrightarrow> m \<le> getCapacity gw gh t \<Longrightarrow>
   t \<le> findCellSize gw gh m xs"
proof (induction xs)
  case Nil
  then show ?case by simp
next
  case (Cons x xs)
  show ?case
  proof (cases "m \<le> getCapacity gw gh x")
    case True
    then show ?thesis using Cons.prems by auto
  next
    case False
    then have "t \<in> set xs" using Cons.prems by auto
    then show ?thesis using Cons False by simp
  qed
qed

lemma PRESET_SIZES_descending:
  "0 \<notin> set PRESET_SIZES" "sorted_wrt (\<lambda>a b. b < a) PRESET_SIZES"
  by (simp_all add: PRESET_SIZES_def)

lemma findCellSize_presets:
  "(findCellSize gw gh m PRESET_SIZES = 0) =
   (\<forall>s\<in>set PRESET_SIZES. \<not> m \<le> getCapacity gw gh s)"
  by (rule findCellSize_none[OF PRESET_SIZES_descending(1)])

lemma getCapacity_nonneg:
  assumes "0 < gw" "0 < gh" "0 < s"
  shows "0 \<le> getCapacity gw gh s"
proof -
  have "0 \<le> gw / real_of_int s" "0 \<le> gh / real_of_int s" using assms by simp_all
  then have "0 \<le> \<lfloor>gw / real_of_int s\<rfloor>" "0 \<le> \<lfloor>gh / real_of_int s\<rfloor>" by simp_all
  then show ?thesis by (simp add: getCapacity_def Let_def)
qed

lemma ceil_scaled_le:
  fixes M c :: int
  assumes "0 < c" "c < M"
  shows "1 < \<lceil>real_of_int M / real_of_int c\<rceil>"
    and "\<lceil>real_of_int M / real_of_int \<lceil>real_of_int M / real_of_int c\<rceil>\<rceil> \<le> c"
proof -
  let ?k = "\<lceil>real_of_int M / real_of_int c\<rceil>"
  have "1 < real_of_int M / real_of_int c" using assms by simp
  then show k1: "1 < ?k" by linarith
  have c': "0 < real_of_int c" using assms(1) by simp
  have k': "0 < real_of_int ?k" using k1 by simp
  have "real_of_int M / real_of_int c \<le> real_of_int ?k" by (rule le_of_int_ceiling)
  then have "real_of_int M \<le> real_of_int ?k * real_of_int c"
    using c' by (metis pos_divide_le_eq)
  then have "real_of_int M \<le> real_of_int c * real_of_int ?k"
    by (simp only: mult.commute)
  then have "real_of_int M / real_of_int ?k \<le> real_of_int c"
    using k' by (metis pos_divide_le_eq)
  then show "\<lceil>real_of_int M / real_of_int ?k\<rceil> \<le> c" by (simp add: ceiling_le_iff)
qed

text \<open>
  The drawing area of a canvas of \<open>w\<close> by \<open>h\<close> pixels is \<open>(w - 80) / 2\<close> wide and
  \<open>h - 80\<close> high, and \<open>data.n1 || 0\<close> is \<open>data.n1\<close>.
\<close>

lemma drawPopulationGrid_packGrid:
  "drawPopulationGrid w h n1 n2 = packGrid ((w - 80) / 2) (h - 80) n1 n2"
  by (simp add: drawPopulationGrid_def Let_def js_or_int_def)

lemma ceil_div_mono:
  "n \<le> m \<Longrightarrow> (\<And>k. s = Finite k \<Longrightarrow> 0 < k) \<Longrightarrow> ceil_div n s \<le> ceil_div m s"
  by (cases s) (auto simp: ceil_div_def intro!: ceiling_mono divide_right_mono)

section \<open>Facts about the rounding\<close>

text \<open>The exponent is the one of the binade, and it is determined by the binade.\<close>

lemma dexp_bounds:
  assumes "x \<noteq> 0"
  shows "2 powi (dexp x) \<le> \<bar>x\<bar>" and "\<bar>x\<bar> < 2 powi (dexp x + 1)"
proof -
  define a where "a = \<bar>x\<bar>"
  have a: "0 < a" using assms by (simp add: a_def)
  have "2 powi (dexp x) \<le> a \<and> a < 2 powi (dexp x + 1)"
  proof (cases "1 \<le> a")
    case True
    define n where "n = \<lfloor>a\<rfloor>"
    have n: "0 < n" using True by (simp add: n_def)
    have e: "dexp x = bitlen n - 1" using True by (simp add: dexp_def a_def n_def Let_def)
    have b1: "1 \<le> bitlen n" using n by (simp add: bitlen_alt_def)
    from bitlen_bounds[OF n]
    have lo: "2 ^ nat (bitlen n - 1) \<le> n" and hi: "n < 2 ^ nat (bitlen n)"
      by simp_all
    have "real_of_int (2 ^ nat (bitlen n - 1)) \<le> real_of_int n" using lo by linarith
    then have "(2::real) ^ nat (bitlen n - 1) \<le> real_of_int n" by simp
    moreover have "real_of_int n \<le> a" by (simp add: n_def)
    ultimately have "(2::real) ^ nat (bitlen n - 1) \<le> a" by linarith
    moreover have "(2::real) powi (bitlen n - 1) = 2 ^ nat (bitlen n - 1)"
      using b1 by (simp add: power_int_nonneg_exp)
    ultimately have l: "(2::real) powi (bitlen n - 1) \<le> a" by simp
    have "n + 1 \<le> 2 ^ nat (bitlen n)" using hi by simp
    then have "real_of_int (n + 1) \<le> real_of_int (2 ^ nat (bitlen n))" by linarith
    then have "real_of_int n + 1 \<le> (2::real) ^ nat (bitlen n)" by simp
    moreover have "a < real_of_int n + 1" by (simp add: n_def)
    ultimately have "a < (2::real) ^ nat (bitlen n)" by linarith
    moreover have "(2::real) powi (bitlen n) = 2 ^ nat (bitlen n)"
      using b1 by (simp add: power_int_nonneg_exp)
    ultimately have h: "a < (2::real) powi (bitlen n)" by simp
    show ?thesis using l h e by simp
  next
    case False
    define y where "y = 1 / a"
    have y: "1 < y" using False a by (simp add: y_def)
    define N where "N = \<lceil>y\<rceil> - 1"
    have N: "0 < N" using y by (simp add: N_def)
    have e: "dexp x = - bitlen N" using False by (simp add: dexp_def a_def N_def y_def Let_def)
    have b1: "1 \<le> bitlen N" using N by (simp add: bitlen_alt_def)
    from bitlen_bounds[OF N]
    have lo: "2 ^ nat (bitlen N - 1) \<le> N" and hi: "N < 2 ^ nat (bitlen N)"
      by simp_all
    have yN: "real_of_int N < y" "y \<le> real_of_int N + 1" by (simp_all add: N_def) linarith+
    have "N + 1 \<le> 2 ^ nat (bitlen N)" using hi by simp
    then have "real_of_int (N + 1) \<le> real_of_int (2 ^ nat (bitlen N))" by linarith
    then have "real_of_int N + 1 \<le> (2::real) ^ nat (bitlen N)" by simp
    then have "y \<le> (2::real) ^ nat (bitlen N)" using yN by linarith
    moreover have "(2::real) powi (bitlen N) = 2 ^ nat (bitlen N)"
      using b1 by (simp add: power_int_nonneg_exp)
    ultimately have yh: "y \<le> (2::real) powi (bitlen N)" by simp
    have "real_of_int (2 ^ nat (bitlen N - 1)) \<le> real_of_int N" using lo by linarith
    then have "(2::real) ^ nat (bitlen N - 1) \<le> real_of_int N" by simp
    then have "(2::real) ^ nat (bitlen N - 1) < y" using yN by linarith
    moreover have "(2::real) powi (bitlen N - 1) = 2 ^ nat (bitlen N - 1)"
      using b1 by (simp add: power_int_nonneg_exp)
    ultimately have yl: "(2::real) powi (bitlen N - 1) < y" by simp
    have ay: "a = 1 / y" using a by (simp add: y_def)
    have p: "0 < (2::real) powi (bitlen N)" "0 < (2::real) powi (bitlen N - 1)" "0 < y"
      using y by simp_all
    have "1 / (2::real) powi (bitlen N) \<le> 1 / y"
      using yh y p by (intro divide_left_mono) simp_all
    then have l: "(2::real) powi (- bitlen N) \<le> a" by (simp add: ay power_int_minus_divide)
    have "1 / y < 1 / (2::real) powi (bitlen N - 1)"
      using yl p by (intro divide_strict_left_mono) simp_all
    moreover have "1 / (2::real) powi (bitlen N - 1) = 2 powi (- (bitlen N - 1))"
      by (simp only: power_int_minus_divide)
    ultimately have "a < (2::real) powi (- (bitlen N - 1))" by (simp only: ay)
    moreover have "- (bitlen N - 1) = - bitlen N + 1" by simp
    ultimately have h: "a < (2::real) powi (- bitlen N + 1)" by simp
    show ?thesis using l h e by simp
  qed
  then show "2 powi (dexp x) \<le> \<bar>x\<bar>" and "\<bar>x\<bar> < 2 powi (dexp x + 1)"
    by (simp_all add: a_def)
qed

lemma dexp_eq:
  assumes "2 powi k \<le> \<bar>x\<bar>" "\<bar>x\<bar> < 2 powi (k + 1)"
  shows "dexp x = k"
proof -
  have "0 < (2::real) powi k" by simp
  then have "0 < \<bar>x\<bar>" using assms(1) by linarith
  then have x: "x \<noteq> 0" by simp
  note b = dexp_bounds[OF x]
  have lt: "m < n" if "(2::real) powi m < 2 powi n" for m n :: int
  proof (rule ccontr)
    assume "\<not> m < n"
    then have "(2::real) powi n \<le> 2 powi m" by (intro power_int_increasing) simp_all
    then show False using that by linarith
  qed
  have "(2::real) powi k < 2 powi (dexp x + 1)" using assms(1) b(2) by linarith
  then have "k < dexp x + 1" by (rule lt)
  moreover have "(2::real) powi (dexp x) < 2 powi (k + 1)" using assms(2) b(1) by linarith
  then have "dexp x < k + 1" by (rule lt)
  ultimately show ?thesis by simp
qed

text \<open>Rounding a mantissa to the nearest integer.\<close>

lemma round_even_bounds: "\<lfloor>y\<rfloor> \<le> round_even y" "round_even y \<le> \<lfloor>y\<rfloor> + 1"
  by (simp_all add: round_even_def Let_def)

lemma round_even_of_int: "round_even (real_of_int n) = n"
  by (simp add: round_even_def Let_def)

lemma round_even_mono:
  assumes "y \<le> z"
  shows "round_even y \<le> round_even z"
proof (cases "\<lfloor>y\<rfloor> = \<lfloor>z\<rfloor>")
  case True
  have "y - real_of_int \<lfloor>z\<rfloor> \<le> z - real_of_int \<lfloor>z\<rfloor>" using assms by simp
  then show ?thesis using True by (auto simp add: round_even_def Let_def)
next
  case False
  have "\<lfloor>y\<rfloor> \<le> \<lfloor>z\<rfloor>" using assms by (rule floor_mono)
  then have "\<lfloor>y\<rfloor> + 1 \<le> \<lfloor>z\<rfloor>" using False by simp
  then show ?thesis using round_even_bounds(2)[of y] round_even_bounds(1)[of z] by linarith
qed

lemma round_even_near:
  assumes "\<bar>y - real_of_int m\<bar> < 1 / 2"
  shows "round_even y = m"
proof -
  have lo: "real_of_int m - 1 / 2 < y" and hi: "y < real_of_int m + 1 / 2"
    using assms by linarith+
  show ?thesis
  proof (cases "real_of_int m \<le> y")
    case True
    then have "\<lfloor>y\<rfloor> = m" using hi by (intro floor_unique) linarith+
    then show ?thesis using hi by (simp add: round_even_def Let_def)
  next
    case False
    then have f: "\<lfloor>y\<rfloor> = m - 1" using lo by (intro floor_unique) simp_all
    have "1 / 2 < y - real_of_int (m - 1)" using lo by simp
    then show ?thesis using f by (simp add: round_even_def Let_def)
  qed
qed

text \<open>
  Rounding with the exponent at hand, and rounding a number that is known up to less
  than half a unit of the last place.
\<close>

lemma rd_0 [simp]: "rd 0 = 0"
  by (simp add: rd_def)

lemma rd_eval:
  assumes "2 powi k \<le> \<bar>x\<bar>" "\<bar>x\<bar> < 2 powi (k + 1)"
  shows "rd x = real_of_int (round_even (x / 2 powi (k - 52))) * 2 powi (k - 52)"
proof -
  have "0 < (2::real) powi k" by simp
  then have "0 < \<bar>x\<bar>" using assms(1) by linarith
  then have "x \<noteq> 0" by simp
  then show ?thesis using dexp_eq[OF assms] by (simp add: rd_def Let_def)
qed

lemma rd_near:
  assumes "2 powi k \<le> \<bar>x\<bar>" "\<bar>x\<bar> < 2 powi (k + 1)"
    and "\<bar>x / 2 powi (k - 52) - real_of_int m\<bar> < 1 / 2"
  shows "rd x = real_of_int m * 2 powi (k - 52)"
  using rd_eval[OF assms(1,2)] round_even_near[OF assms(3)] by simp

text \<open>The rounded value of a positive number lies in the closed binade of that number.\<close>

lemma rd_binade:
  assumes "0 < x"
  shows "2 powi (dexp x) \<le> rd x" and "rd x \<le> 2 powi (dexp x + 1)"
proof -
  define u :: real where "u = 2 powi (dexp x - 52)"
  have u: "0 < u" by (simp add: u_def)
  have x: "x \<noteq> 0" using assms by simp
  have r: "rd x = real_of_int (round_even (x / u)) * u"
    using x by (simp add: rd_def Let_def u_def)
  have p: "(2::real) powi (dexp x) = 2 ^ 52 * u" "(2::real) powi (dexp x + 1) = 2 ^ 53 * u"
    by (simp_all add: u_def power_int_diff power_int_add)
  have "2 ^ 52 * u \<le> x" "x < 2 ^ 53 * u"
    using dexp_bounds[OF x] assms p by simp_all
  then have b: "2 ^ 52 \<le> x / u" "x / u \<le> 2 ^ 53"
    using u by (simp_all add: pos_le_divide_eq pos_divide_le_eq)
  have "round_even (real_of_int (2 ^ 52)) \<le> round_even (x / u)"
    using b(1) by (intro round_even_mono) simp
  then have lo: "2 ^ 52 \<le> round_even (x / u)" by (simp only: round_even_of_int)
  have "round_even (x / u) \<le> round_even (real_of_int (2 ^ 53))"
    using b(2) by (intro round_even_mono) simp
  then have hi: "round_even (x / u) \<le> 2 ^ 53" by (simp only: round_even_of_int)
  have "real_of_int (2 ^ 52) \<le> real_of_int (round_even (x / u))" using lo by linarith
  then have "2 ^ 52 * u \<le> real_of_int (round_even (x / u)) * u"
    using u by (simp add: mult_right_mono)
  then show "2 powi (dexp x) \<le> rd x" by (simp only: r p)
  have "real_of_int (round_even (x / u)) \<le> real_of_int (2 ^ 53)" using hi by linarith
  then have "real_of_int (round_even (x / u)) * u \<le> 2 ^ 53 * u"
    using u by (simp add: mult_right_mono)
  then show "rd x \<le> 2 powi (dexp x + 1)" by (simp only: r p)
qed

text \<open>Rounding keeps the sign and the order.\<close>

lemma rd_pos: "0 < x \<Longrightarrow> 0 < rd x"
proof -
  assume x: "0 < x"
  have "0 < (2::real) powi (dexp x)" by simp
  then show ?thesis using rd_binade(1)[OF x] by linarith
qed

lemma rd_neg: "x < 0 \<Longrightarrow> rd x < 0"
proof -
  assume x: "x < 0"
  define u :: real where "u = 2 powi (dexp x - 52)"
  have u: "0 < u" by (simp add: u_def)
  have r: "rd x = real_of_int (round_even (x / u)) * u"
    using x by (simp add: rd_def Let_def u_def)
  have p: "(2::real) powi (dexp x) = 2 ^ 52 * u"
    by (simp add: u_def power_int_diff)
  have "2 ^ 52 * u \<le> - x" using dexp_bounds(1)[of x] x p by simp
  then have "x / u \<le> - (2 ^ 52)" using u by (simp add: pos_divide_le_eq)
  then have "round_even (x / u) \<le> round_even (real_of_int (- (2 ^ 52)))"
    by (intro round_even_mono) simp
  then have "round_even (x / u) < 0" by (simp only: round_even_of_int) simp
  then have "real_of_int (round_even (x / u)) < 0" by simp
  then show ?thesis using u by (simp add: r mult_neg_pos)
qed

lemma rd_nonneg: "0 \<le> x \<Longrightarrow> 0 \<le> rd x"
  using rd_pos[of x] by (cases "x = 0") auto

lemma rd_eq_0_iff: "rd x = 0 \<longleftrightarrow> x = 0"
  using rd_pos[of x] rd_neg[of x] by (cases "x < 0"; cases "x = 0") auto

lemma rd_mono:
  assumes "0 \<le> x" "x \<le> y"
  shows "rd x \<le> rd y"
proof (cases "x = 0")
  case True
  then show ?thesis using assms rd_nonneg[of y] by simp
next
  case False
  then have x: "0 < x" and y: "0 < y" using assms by simp_all
  have xn: "x \<noteq> 0" and yn: "y \<noteq> 0" using x y by simp_all
  have le: "dexp x \<le> dexp y"
  proof (rule ccontr)
    assume "\<not> dexp x \<le> dexp y"
    then have "dexp y + 1 \<le> dexp x" by simp
    then have "(2::real) powi (dexp y + 1) \<le> 2 powi (dexp x)"
      by (intro power_int_increasing) simp_all
    then show False using dexp_bounds(2)[OF yn] dexp_bounds(1)[OF xn] x y assms(2) by simp
  qed
  show ?thesis
  proof (cases "dexp x = dexp y")
    case True
    define u :: real where "u = 2 powi (dexp y - 52)"
    have u: "0 < u" by (simp add: u_def)
    have "x / u \<le> y / u" using assms(2) u by (simp add: divide_right_mono)
    then have "round_even (x / u) \<le> round_even (y / u)" by (rule round_even_mono)
    then have "real_of_int (round_even (x / u)) * u \<le> real_of_int (round_even (y / u)) * u"
      using u by (simp add: mult_right_mono)
    then show ?thesis using xn yn True by (simp add: rd_def Let_def u_def)
  next
    case False
    then have "dexp x + 1 \<le> dexp y" using le by simp
    then have "(2::real) powi (dexp x + 1) \<le> 2 powi (dexp y)"
      by (intro power_int_increasing) simp_all
    then show ?thesis using rd_binade(2)[OF x] rd_binade(1)[OF y] by linarith
  qed
qed

lemma rd_1 [simp]: "rd 1 = 1"
  using rd_eval[of 0 1] by (simp add: round_even_def)

text \<open>
  The square root of a number whose square root lies within half a unit of the last place
  of the double \<open>m * 2\<^sup>k\<^sup>-\<^sup>5\<^sup>2\<close>, stated without a square root.
\<close>

lemma dsqrt_eval:
  assumes m: "2 ^ 52 < m" "m < 2 ^ 53"
    and lo: "((real_of_int m - 1 / 2) * 2 powi (k - 52))\<^sup>2 < x"
    and hi: "x < ((real_of_int m + 1 / 2) * 2 powi (k - 52))\<^sup>2"
  shows "dsqrt x = real_of_int m * 2 powi (k - 52)"
proof -
  define u :: real where "u = 2 powi (k - 52)"
  have u: "0 < u" by (simp add: u_def)
  have p: "(2::real) powi k = 2 ^ 52 * u" "(2::real) powi (k + 1) = 2 ^ 53 * u"
    by (simp_all add: u_def power_int_diff power_int_add)
  have m1: "real_of_int (2 ^ 52 + 1) \<le> real_of_int m" using m(1) by linarith
  have m2: "real_of_int m \<le> real_of_int (2 ^ 53 - 1)" using m(2) by linarith
  have a: "(real_of_int m - 1 / 2) * u < sqrt x"
    using lo unfolding u_def by (rule real_less_rsqrt)
  have "0 \<le> (real_of_int m + 1 / 2) * u" using m1 u by simp
  then have b: "sqrt x < (real_of_int m + 1 / 2) * u"
    using hi unfolding u_def by (rule real_less_lsqrt)
  have "2 ^ 52 \<le> real_of_int m - 1 / 2" using m1 by simp
  then have "2 ^ 52 * u \<le> (real_of_int m - 1 / 2) * u" using u by (simp add: mult_right_mono)
  then have lo2: "2 ^ 52 * u \<le> sqrt x" using a by linarith
  have "real_of_int m + 1 / 2 \<le> 2 ^ 53" using m2 by simp
  then have "(real_of_int m + 1 / 2) * u \<le> 2 ^ 53 * u" using u by (simp add: mult_right_mono)
  then have hi2: "sqrt x < 2 ^ 53 * u" using b by linarith
  have "0 < 2 ^ 52 * u" using u by simp
  then have s: "0 < sqrt x" using lo2 by linarith
  have c: "2 powi k \<le> \<bar>sqrt x\<bar>" using lo2 s by (simp only: p abs_of_pos)
  have d: "\<bar>sqrt x\<bar> < 2 powi (k + 1)" using hi2 s by (simp only: p abs_of_pos)
  have "real_of_int m - 1 / 2 < sqrt x / u" using a u by (simp add: pos_less_divide_eq)
  moreover have "sqrt x / u < real_of_int m + 1 / 2" using b u by (simp add: pos_divide_less_eq)
  ultimately have e: "\<bar>sqrt x / 2 powi (k - 52) - real_of_int m\<bar> < 1 / 2"
    unfolding u_def by linarith
  show ?thesis unfolding dsqrt_def by (rule rd_near[OF c d e])
qed

text \<open>
  The equations that evaluate an operation on two numerals: the simplifier computes the
  exponent by \<open>compute_bitlen\<close>.
\<close>

lemmas double_eval =
  dadd_def dsub_def dmul_def ddiv_def dpow2_def rd_def dexp_def round_even_def Let_def
  compute_bitlen

text \<open>The operations on doubles keep signs.\<close>

lemma dmul_pos: "0 < x \<Longrightarrow> 0 < y \<Longrightarrow> 0 < dmul x y"
  by (simp add: dmul_def rd_pos)

lemma dmul_nonneg: "0 \<le> x \<Longrightarrow> 0 \<le> y \<Longrightarrow> 0 \<le> dmul x y"
  by (simp add: dmul_def rd_nonneg)

lemma ddiv_pos: "0 < x \<Longrightarrow> 0 < y \<Longrightarrow> 0 < ddiv x y"
  by (simp add: ddiv_def rd_pos)

lemma dadd_pos: "0 \<le> x \<Longrightarrow> 0 < y \<Longrightarrow> 0 < dadd x y"
  by (simp add: dadd_def rd_pos add_nonneg_pos)

lemma dsqrt_nonneg: "0 \<le> x \<Longrightarrow> 0 \<le> dsqrt x"
  by (simp add: dsqrt_def rd_nonneg)

lemma dsqrt_pos: "0 < x \<Longrightarrow> 0 < dsqrt x"
  by (simp add: dsqrt_def rd_pos)

lemma dpow2_pos: "x \<noteq> 0 \<Longrightarrow> 0 < dpow2 x"
proof -
  assume "x \<noteq> 0"
  then have "0 < x * x" by (cases "0 < x") (simp_all add: mult_neg_neg)
  then show ?thesis unfolding dpow2_def by (rule rd_pos)
qed

lemma dsub_neq_0: "x \<noteq> y \<Longrightarrow> dsub x y \<noteq> 0"
  by (simp add: dsub_def rd_eq_0_iff)

text \<open>
  The pooled average of two proportions lies between 0 and 1 in doubles as well, when the
  ratio is a double.
\<close>

lemma double_p_avg_bounds:
  assumes "0 < p1" "p1 < 1" "0 < p2" "p2 < 1" "0 < r" "rd r = r"
  shows "0 < ddiv (dadd p1 (dmul r p2)) (dadd 1 r)"
    and "ddiv (dadd p1 (dmul r p2)) (dadd 1 r) \<le> 1"
proof -
  have m: "0 < dmul r p2" using assms by (intro dmul_pos)
  have "r * p2 \<le> r" using assms by simp
  moreover have "0 \<le> r * p2" using assms by simp
  ultimately have "rd (r * p2) \<le> rd r" by (intro rd_mono)
  then have m1: "dmul r p2 \<le> r" using assms(6) by (simp add: dmul_def)
  have num: "0 < dadd p1 (dmul r p2)" using assms(1) m by (intro dadd_pos) simp_all
  have den: "0 < dadd 1 r" using assms(5) by (intro dadd_pos) simp_all
  have "0 \<le> p1 + dmul r p2" using assms(1) m by simp
  moreover have "p1 + dmul r p2 \<le> 1 + r" using assms(2) m1 by simp
  ultimately have le: "dadd p1 (dmul r p2) \<le> dadd 1 r"
    unfolding dadd_def by (intro rd_mono)
  show "0 < ddiv (dadd p1 (dmul r p2)) (dadd 1 r)" using num den by (rule ddiv_pos)
  have "0 \<le> dadd p1 (dmul r p2) / dadd 1 r" using num den by simp
  moreover have "dadd p1 (dmul r p2) / dadd 1 r \<le> 1" using le den by simp
  ultimately have "rd (dadd p1 (dmul r p2) / dadd 1 r) \<le> rd 1" by (intro rd_mono)
  then show "ddiv (dadd p1 (dmul r p2)) (dadd 1 r) \<le> 1" by (simp add: ddiv_def)
qed

text \<open>
  The prevalence calculator at a prevalence of 50% and a precision of 5%, step by step:
  the quotient of the doubles is 399.99999999999994.
\<close>

lemma prevalence_calc_examples:
  "prevalence_calc 50 5 False False popSize = 400"
  "prevalence_calc 50 5 True False 1000 = 286"
  "prevalence_calc 50 5 False True popSize = 445"
proof -
  have s1: "ddiv 50 100 = 1 / 2"
    by (simp add: double_eval)
  have s2: "dsub 1 (1 / 2) = 1 / 2"
    by (simp add: double_eval)
  have s3: "ddiv 5 100 = 3602879701896397 / 72057594037927936"
    by (simp add: double_eval)
  have s4: "dmul 4 (1 / 2) = 2"
    by (simp add: double_eval)
  have s5: "dmul 2 (1 / 2) = 1"
    by (simp add: double_eval)
  have s6:
    "dmul (3602879701896397 / 72057594037927936)
       (3602879701896397 / 72057594037927936) =
       1441151880758559 / 576460752303423488"
    by (simp add: double_eval)
  have s7: "ddiv 1 (1441151880758559 / 576460752303423488) = 7036874417766399 / 17592186044416"
    by (simp add: double_eval)
  have s8: "\<lceil>7036874417766399 / 17592186044416 :: real\<rceil> = 400"
    by (simp add: ceiling_eq_iff)
  have s9:
    "ddiv (7036874417766399 / 17592186044416)
       1000 =
       7205759403792793 / 18014398509481984"
    by (simp add: double_eval)
  have s10:
    "dadd 1
       (7205759403792793 / 18014398509481984) =
       3152519739159347 / 2251799813685248"
    by (simp add: double_eval)
  have s11:
    "ddiv (7036874417766399 / 17592186044416)
       (3152519739159347 / 2251799813685248) =
       2513169434916571 / 8796093022208"
    by (simp add: double_eval)
  have s12: "\<lceil>2513169434916571 / 8796093022208 :: real\<rceil> = 286"
    by (simp add: ceiling_eq_iff)
  have s13: "rd (9 / 10) = 8106479329266893 / 9007199254740992"
    by (simp add: double_eval)
  have s14:
    "ddiv (7036874417766399 / 17592186044416)
       (8106479329266893 / 9007199254740992) =
       488671834567111 / 1099511627776"
    by (simp add: double_eval)
  have s15: "\<lceil>488671834567111 / 1099511627776 :: real\<rceil> = 445"
    by (simp add: ceiling_eq_iff)
  show "prevalence_calc 50 5 False False popSize = 400"
    by (simp add: prevalence_calc_def Let_def s1 s2 s3 s4 s5 s6 s7 s8 s9 s10 s11 s12 s13 s14 s15)
  show "prevalence_calc 50 5 True False 1000 = 286"
    by (simp add: prevalence_calc_def Let_def s1 s2 s3 s4 s5 s6 s7 s8 s9 s10 s11 s12 s13 s14 s15)
  show "prevalence_calc 50 5 False True popSize = 445"
    by (simp add: prevalence_calc_def Let_def s1 s2 s3 s4 s5 s6 s7 s8 s9 s10 s11 s12 s13 s14 s15)
qed

section \<open>The claims\<close>

text \<open>
  Claim C6. \<open>getZBeta\<close> returns the tabulated value for every integer power percentage
  from 80 to 99 (80 gives 0.842, 90 gives 1.282, 95 gives 1.645, 99 gives 2.326) and the
  default 0.842 for every number that is not a key of the table; \<open>getZAlpha\<close> returns
  1.645, 1.96, 2.326 and 2.576 at 90, 95, 98 and 99, and for every other integer the
  banded value: below 95 it is 1.645, below 98 it is 1.96, below 99 it is 2.326, and
  2.576 otherwise.
\<close>

theorem z_tables:
  "map (\<lambda>k. getZBeta (real_of_int k)) [80..99] =
     [0.842, 0.878, 0.915, 0.954, 0.994, 1.036, 1.080, 1.126, 1.175, 1.227,
      1.282, 1.341, 1.405, 1.476, 1.555, 1.645, 1.751, 1.881, 2.054, 2.326]
   \<and> getZBeta 80 = 0.842 \<and> getZBeta 90 = 1.282 \<and> getZBeta 95 = 1.645 \<and> getZBeta 99 = 2.326
   \<and> (\<forall>x. x \<notin> real_of_int ` {80..99} \<longrightarrow> getZBeta x = 0.842)
   \<and> getZAlpha 90 = 1.645 \<and> getZAlpha 95 = 1.96 \<and> getZAlpha 98 = 2.326 \<and> getZAlpha 99 = 2.576
   \<and> (\<forall>k::int. k \<notin> {90, 95, 98, 99} \<longrightarrow>
        getZAlpha (real_of_int k) =
          (if k < 95 then 1.645 else if k < 98 then 1.96 else if k < 99 then 2.326 else 2.576))"
proof -
  have "getZBeta 80 = 0.842 \<and> getZBeta 90 = 1.282 \<and> getZBeta 95 = 1.645 \<and> getZBeta 99 = 2.326"
    by (simp add: getZBeta_def Z_MAP_def js_or_def)
  then show ?thesis
    using getZBeta_table getZBeta_default getZAlpha_exact getZAlpha_banded by blast
qed

text \<open>The tables at inputs off the keys: power 50 and confidence 93, 96 and 100.\<close>

theorem z_tables_witness:
  "(50::real) \<notin> real_of_int ` {80..99} \<and> getZBeta 50 = 0.842
   \<and> (93::int) \<notin> {90, 95, 98, 99} \<and> getZAlpha (real_of_int 93) = 1.645
   \<and> (96::int) \<notin> {90, 95, 98, 99} \<and> getZAlpha (real_of_int 96) = 1.96
   \<and> (100::int) \<notin> {90, 95, 98, 99} \<and> getZAlpha (real_of_int 100) = 2.576"
proof -
  have a: "(50::real) \<notin> real_of_int ` {80..99}" by auto
  have b: "(93::int) \<notin> {90, 95, 98, 99}" "(96::int) \<notin> {90, 95, 98, 99}"
    "(100::int) \<notin> {90, 95, 98, 99}" by simp_all
  have d: "\<forall>x. x \<notin> real_of_int ` {80..99} \<longrightarrow> getZBeta x = 0.842"
    using z_tables by blast
  have e: "\<forall>k::int. k \<notin> {90, 95, 98, 99} \<longrightarrow>
        getZAlpha (real_of_int k) =
          (if k < 95 then 1.645 else if k < 98 then 1.96 else if k < 99 then 2.326 else 2.576)"
    using z_tables by blast
  show ?thesis
    using a b d[rule_format, OF a] e[rule_format, OF b(1)] e[rule_format, OF b(2)]
      e[rule_format, OF b(3)]
    by simp
qed

text \<open>
  Claim C1. For proportions \<open>p1\<close>, \<open>p2\<close> strictly between 0 and 1, different, and a
  ratio \<open>r > 0\<close>, with the z-scores looked up in the tables, the Kelsey estimate is
  \<open>n1 = ceil((zAlpha + zBeta)\<^sup>2 * pAvg (1 - pAvg) * (r + 1) / (r * (p1 - p2)\<^sup>2))\<close> with
  \<open>pAvg = (p1 + r * p2) / (1 + r)\<close>; with dropout, \<open>n1\<close> is replaced by
  \<open>ceil(n1 / 0.9)\<close>; in both cases \<open>n2 = ceil(n1 * r)\<close> and \<open>total = n1 + n2\<close>. The
  numbers are doubles, and each operation of the formula is the operation on doubles, in
  the order in which the formula is written. Neither divisor of the formula is zero.
\<close>

theorem kelsey_estimate:
  assumes "0 < p1" "p1 < 1" "0 < p2" "p2 < 1" "p1 \<noteq> p2" "0 < r"
  shows "(let zAlpha = rd (getZAlpha (dmul (dsub 1 alpha) 100));
              zBeta = rd (getZBeta (dmul (dsub 1 beta) 100));
              pAvg = ddiv (dadd p1 (dmul r p2)) (dadd 1 r);
              n = \<lceil>ddiv (dmul (dmul (dpow2 (dadd zAlpha zBeta)) (dmul pAvg (dsub 1 pAvg)))
                            (dadd r 1))
                      (dmul r (dpow2 (dsub p1 p2)))\<rceil>;
              n1 = (if dropout then \<lceil>ddiv (real_of_int n) (rd 0.9)\<rceil> else n)
          in kelsey (calculateAdvanced p1 p2 r alpha beta dropout) =
               \<lparr>est_n1 = n1, est_n2 = \<lceil>dmul (real_of_int n1) r\<rceil>,
                est_total = n1 + \<lceil>dmul (real_of_int n1) r\<rceil>\<rparr>
             \<and> dadd 1 r \<noteq> 0 \<and> dmul r (dpow2 (dsub p1 p2)) \<noteq> 0)"
proof -
  have r: "js_or r 1 = r" using assms(6) by (simp add: js_or_def)
  have d1: "dadd 1 r \<noteq> 0" using dadd_pos[of 1 r] assms(6) by simp
  have "0 < dpow2 (dsub p1 p2)" using assms(5) by (intro dpow2_pos dsub_neq_0)
  then have "0 < dmul r (dpow2 (dsub p1 p2))" using assms(6) by (simp add: dmul_pos)
  then have d2: "dmul r (dpow2 (dsub p1 p2)) \<noteq> 0" by simp
  show ?thesis
    unfolding Let_def
    using d1 d2
    by (simp add: calculateAdvanced_def Let_def r group_estimate_def apply_dropout_def)
qed

text \<open>
  A cohort with 21% against 29%, ratio 1, confidence 90% and power 82%, with the
  arguments that the cohort calculator passes: the quotient of the doubles is
  384.00000000000017, where the quotient of the exact numbers is 384, and the estimate is
  385 for each group. With 16% against 4% and a power of 94% the estimate is 129, and 144
  with dropout.
\<close>

theorem kelsey_estimate_witness:
  "0 < ddiv 21 100 \<and> ddiv 21 100 < 1 \<and> 0 < ddiv 29 100 \<and> ddiv 29 100 < 1
   \<and> ddiv 21 100 \<noteq> ddiv 29 100 \<and> (0::real) < 1
   \<and> kelsey (calculateAdvanced (ddiv 21 100) (ddiv 29 100) 1 (ddiv 10 100) (ddiv 18 100)
         False) =
        \<lparr>est_n1 = 385, est_n2 = 385, est_total = 770\<rparr>
   \<and> 0 < ddiv 16 100 \<and> ddiv 16 100 < 1 \<and> 0 < ddiv 4 100 \<and> ddiv 4 100 < 1
   \<and> ddiv 16 100 \<noteq> ddiv 4 100
   \<and> kelsey (calculateAdvanced (ddiv 16 100) (ddiv 4 100) 1 (ddiv 10 100) (ddiv 6 100)
         False) =
        \<lparr>est_n1 = 129, est_n2 = 129, est_total = 258\<rparr>
   \<and> kelsey (calculateAdvanced (ddiv 16 100) (ddiv 4 100) 1 (ddiv 10 100) (ddiv 6 100)
         True) =
        \<lparr>est_n1 = 144, est_n2 = 144, est_total = 288\<rparr>"
proof -
  have a1: "ddiv 21 100 = 7566047373982433 / 36028797018963968"
    by (simp add: double_eval)
  have a2: "ddiv 29 100 = 5224175567749775 / 18014398509481984"
    by (simp add: double_eval)
  have a3: "ddiv 10 100 = 3602879701896397 / 36028797018963968"
    by (simp add: double_eval)
  have a4: "ddiv 18 100 = 3242591731706757 / 18014398509481984"
    by (simp add: double_eval)
  have a5:
    "dsub 1
       (3602879701896397 / 36028797018963968) =
       8106479329266893 / 9007199254740992"
    by (simp add: double_eval)
  have a6: "dmul (8106479329266893 / 9007199254740992) 100 = 90"
    by (simp add: double_eval)
  have a7: "getZAlpha 90 = 329 / 200"
    by (simp add: getZAlpha_def Z_ALPHA_MAP_def getZAlpha_range_def)
  have a8: "rd (329 / 200) = 3704210693512233 / 2251799813685248"
    by (simp add: double_eval)
  have a9:
    "dsub 1
       (3242591731706757 / 18014398509481984) =
       3692951694443807 / 4503599627370496"
    by (simp add: double_eval)
  have a10: "dmul (3692951694443807 / 4503599627370496) 100 = 82"
    by (simp add: double_eval)
  have a11: "getZBeta 82 = 183 / 200"
    by (simp add: getZBeta_def Z_MAP_def js_or_def)
  have a12: "rd (183 / 200) = 1030198414761001 / 1125899906842624"
    by (simp add: double_eval)
  have a13:
    "dmul 1
       (5224175567749775 / 18014398509481984) =
       5224175567749775 / 18014398509481984"
    by (simp add: double_eval)
  have a14:
    "dadd (7566047373982433 / 36028797018963968)
       (5224175567749775 / 18014398509481984) =
       1 / 2"
    by (simp add: double_eval)
  have a15: "dadd 1 1 = 2"
    by (simp add: double_eval)
  have a16: "ddiv (1 / 2) 2 = 1 / 4"
    by (simp add: double_eval)
  have a17: "dsub 1 (1 / 4) = 3 / 4"
    by (simp add: double_eval)
  have a18: "dmul (1 / 4) (3 / 4) = 3 / 16"
    by (simp add: double_eval)
  have a19:
    "dadd (3704210693512233 / 2251799813685248)
       (1030198414761001 / 1125899906842624) =
       5764607523034235 / 2251799813685248"
    by (simp add: double_eval)
  have a20: "dpow2 (5764607523034235 / 2251799813685248) = 7378697629483821 / 1125899906842624"
    by (simp add: double_eval)
  have a21:
    "dmul (7378697629483821 / 1125899906842624)
       (3 / 16) =
       2767011611056433 / 2251799813685248"
    by (simp add: double_eval)
  have a22:
    "dmul (2767011611056433 / 2251799813685248)
       2 =
       2767011611056433 / 1125899906842624"
    by (simp add: double_eval)
  have a23:
    "dsub (7566047373982433 / 36028797018963968)
       (5224175567749775 / 18014398509481984) =
       - (2882303761517117 / 36028797018963968)"
    by (simp add: double_eval)
  have a24:
    "dpow2 (- (2882303761517117 / 36028797018963968)) =
       3689348814741909 / 576460752303423488"
    by (simp add: double_eval)
  have a25:
    "dmul 1
       (3689348814741909 / 576460752303423488) =
       3689348814741909 / 576460752303423488"
    by (simp add: double_eval)
  have a26:
    "ddiv (2767011611056433 / 1125899906842624)
       (3689348814741909 / 576460752303423488) =
       6755399441055747 / 17592186044416"
    by (simp add: double_eval)
  have a27: "\<lceil>6755399441055747 / 17592186044416 :: real\<rceil> = 385"
    by (simp add: ceiling_eq_iff)
  have a28: "dmul 385 1 = 385"
    by (simp add: double_eval)
  have b1: "ddiv 16 100 = 5764607523034235 / 36028797018963968"
    by (simp add: double_eval)
  have b2: "ddiv 4 100 = 5764607523034235 / 144115188075855872"
    by (simp add: double_eval)
  have b3: "ddiv 10 100 = 3602879701896397 / 36028797018963968"
    by (simp add: double_eval)
  have b4: "ddiv 6 100 = 1080863910568919 / 18014398509481984"
    by (simp add: double_eval)
  have b5:
    "dsub 1
       (3602879701896397 / 36028797018963968) =
       8106479329266893 / 9007199254740992"
    by (simp add: double_eval)
  have b6: "dmul (8106479329266893 / 9007199254740992) 100 = 90"
    by (simp add: double_eval)
  have b7: "getZAlpha 90 = 329 / 200"
    by (simp add: getZAlpha_def Z_ALPHA_MAP_def getZAlpha_range_def)
  have b8: "rd (329 / 200) = 3704210693512233 / 2251799813685248"
    by (simp add: double_eval)
  have b9:
    "dsub 1
       (1080863910568919 / 18014398509481984) =
       2116691824864133 / 2251799813685248"
    by (simp add: double_eval)
  have b10: "dmul (2116691824864133 / 2251799813685248) 100 = 94"
    by (simp add: double_eval)
  have b11: "getZBeta 94 = 311 / 200"
    by (simp add: getZBeta_def Z_MAP_def js_or_def)
  have b12: "rd (311 / 200) = 7003097420561121 / 4503599627370496"
    by (simp add: double_eval)
  have b13:
    "dmul 1
       (5764607523034235 / 144115188075855872) =
       5764607523034235 / 144115188075855872"
    by (simp add: double_eval)
  have b14:
    "dadd (5764607523034235 / 36028797018963968)
       (5764607523034235 / 144115188075855872) =
       3602879701896397 / 18014398509481984"
    by (simp add: double_eval)
  have b15: "dadd 1 1 = 2"
    by (simp add: double_eval)
  have b16:
    "ddiv (3602879701896397 / 18014398509481984)
       2 =
       3602879701896397 / 36028797018963968"
    by (simp add: double_eval)
  have b17:
    "dmul (3602879701896397 / 36028797018963968)
       (8106479329266893 / 9007199254740992) =
       6485183463413515 / 72057594037927936"
    by (simp add: double_eval)
  have b18:
    "dadd (3704210693512233 / 2251799813685248)
       (7003097420561121 / 4503599627370496) =
       3602879701896397 / 1125899906842624"
    by (simp add: double_eval)
  have b19: "dpow2 (3602879701896397 / 1125899906842624) = 1441151880758559 / 140737488355328"
    by (simp add: double_eval)
  have b20:
    "dmul (1441151880758559 / 140737488355328)
       (6485183463413515 / 72057594037927936) =
       8301034833169301 / 9007199254740992"
    by (simp add: double_eval)
  have b21:
    "dmul (8301034833169301 / 9007199254740992)
       2 =
       8301034833169301 / 4503599627370496"
    by (simp add: double_eval)
  have b22:
    "dsub (5764607523034235 / 36028797018963968)
       (5764607523034235 / 144115188075855872) =
       1080863910568919 / 9007199254740992"
    by (simp add: double_eval)
  have b23:
    "dpow2 (1080863910568919 / 9007199254740992) =
       4150517416584649 / 288230376151711744"
    by (simp add: double_eval)
  have b24:
    "dmul 1
       (4150517416584649 / 288230376151711744) =
       4150517416584649 / 288230376151711744"
    by (simp add: double_eval)
  have b25:
    "ddiv (8301034833169301 / 4503599627370496)
       (4150517416584649 / 288230376151711744) =
       2251799813685249 / 17592186044416"
    by (simp add: double_eval)
  have b26: "\<lceil>2251799813685249 / 17592186044416 :: real\<rceil> = 129"
    by (simp add: ceiling_eq_iff)
  have b27: "dmul 129 1 = 129"
    by (simp add: double_eval)
  have b28: "rd (9 / 10) = 8106479329266893 / 9007199254740992"
    by (simp add: double_eval)
  have b29:
    "ddiv 129
       (8106479329266893 / 9007199254740992) =
       5043093332732587 / 35184372088832"
    by (simp add: double_eval)
  have b30: "\<lceil>5043093332732587 / 35184372088832 :: real\<rceil> = 144"
    by (simp add: ceiling_eq_iff)
  have b31: "dmul 144 1 = 144"
    by (simp add: double_eval)
  have a: "0 < ddiv 21 100 \<and> ddiv 21 100 < 1 \<and> 0 < ddiv 29 100 \<and> ddiv 29 100 < 1
      \<and> ddiv 21 100 \<noteq> ddiv 29 100 \<and> (0::real) < 1
      \<and> kelsey (calculateAdvanced (ddiv 21 100) (ddiv 29 100) 1 (ddiv 10 100) (ddiv 18 100)
            False) =
          \<lparr>est_n1 = 385, est_n2 = 385, est_total = 770\<rparr>"
    using kelsey_estimate[of "ddiv 21 100" "ddiv 29 100" 1 "ddiv 10 100" "ddiv 18 100" False]
    by (simp add: Let_def
      a1 a2 a3 a4 a5 a6 a7 a8 a9 a10 a11 a12 a13 a14 a15 a16 a17 a18 a19 a20 a21 a22
      a23 a24 a25 a26 a27 a28)
  have b: "0 < ddiv 16 100 \<and> ddiv 16 100 < 1 \<and> 0 < ddiv 4 100 \<and> ddiv 4 100 < 1
      \<and> ddiv 16 100 \<noteq> ddiv 4 100
      \<and> kelsey (calculateAdvanced (ddiv 16 100) (ddiv 4 100) 1 (ddiv 10 100) (ddiv 6 100)
            False) =
          \<lparr>est_n1 = 129, est_n2 = 129, est_total = 258\<rparr>"
    using kelsey_estimate[of "ddiv 16 100" "ddiv 4 100" 1 "ddiv 10 100" "ddiv 6 100" False]
    by (simp add: Let_def
      b1 b2 b3 b4 b5 b6 b7 b8 b9 b10 b11 b12 b13 b14 b15 b16 b17 b18 b19 b20 b21 b22
      b23 b24 b25 b26 b27 b28 b29 b30 b31)
  have c: "kelsey (calculateAdvanced (ddiv 16 100) (ddiv 4 100) 1 (ddiv 10 100) (ddiv 6 100)
            True) =
          \<lparr>est_n1 = 144, est_n2 = 144, est_total = 288\<rparr>"
    using kelsey_estimate[of "ddiv 16 100" "ddiv 4 100" 1 "ddiv 10 100" "ddiv 6 100" True]
    by (simp add: Let_def
      b1 b2 b3 b4 b5 b6 b7 b8 b9 b10 b11 b12 b13 b14 b15 b16 b17 b18 b19 b20 b21 b22
      b23 b24 b25 b26 b27 b28 b29 b30 b31)
  show ?thesis using a b c by blast
qed

text \<open>
  Claim C2. Under the same hypotheses, with
  \<open>term1 = zAlpha * sqrt((r + 1) * pAvg (1 - pAvg))\<close> and
  \<open>term2 = zBeta * sqrt(r * p1 (1 - p1) + p2 (1 - p2))\<close>, the Fleiss estimate is
  \<open>n1 = ceil((term1 + term2)\<^sup>2 / (r * (p1 - p2)\<^sup>2))\<close>, and the continuity-corrected
  estimate is computed from the unrounded \<open>n1_raw = (term1 + term2)\<^sup>2 / (r * (p1 - p2)\<^sup>2)\<close>
  as \<open>ceil((n1_raw / 4) * (1 + sqrt(1 + 2 (r + 1) / (n1_raw * r * |p1 - p2|)))\<^sup>2)\<close>;
  dropout, \<open>n2\<close> and \<open>total\<close> follow from each \<open>n1\<close> as for Kelsey. The numbers are
  doubles, which for the ratio is the hypothesis \<open>rd r = r\<close>, and each operation is the
  operation on doubles, in the order in which the formulas are written. Every square root
  is taken of a non-negative number and no divisor is zero.
\<close>

theorem fleiss_estimates:
  assumes "0 < p1" "p1 < 1" "0 < p2" "p2 < 1" "p1 \<noteq> p2" "0 < r" "rd r = r"
  shows "(let zAlpha = rd (getZAlpha (dmul (dsub 1 alpha) 100));
              zBeta = rd (getZBeta (dmul (dsub 1 beta) 100));
              pAvg = ddiv (dadd p1 (dmul r p2)) (dadd 1 r);
              arg1 = dmul (dadd r 1) (dmul pAvg (dsub 1 pAvg));
              arg2 = dadd (dmul r (dmul p1 (dsub 1 p1))) (dmul p2 (dsub 1 p2));
              t1 = dmul zAlpha (dsqrt arg1);
              t2 = dmul zBeta (dsqrt arg2);
              den = dmul r (dpow2 (dsub p1 p2));
              n1_raw = ddiv (dpow2 (dadd t1 t2)) den;
              nf = \<lceil>n1_raw\<rceil>;
              cden = dmul (dmul n1_raw r) \<bar>dsub p1 p2\<bar>;
              correctionTerm = ddiv (dmul 2 (dadd r 1)) cden;
              arg3 = dadd 1 correctionTerm;
              nc = \<lceil>dmul (ddiv n1_raw 4) (dpow2 (dadd 1 (dsqrt arg3)))\<rceil>;
              n1f = (if dropout then \<lceil>ddiv (real_of_int nf) (rd 0.9)\<rceil> else nf);
              n1c = (if dropout then \<lceil>ddiv (real_of_int nc) (rd 0.9)\<rceil> else nc);
              res = calculateAdvanced p1 p2 r alpha beta dropout
          in fleiss res =
               \<lparr>est_n1 = n1f, est_n2 = \<lceil>dmul (real_of_int n1f) r\<rceil>,
                est_total = n1f + \<lceil>dmul (real_of_int n1f) r\<rceil>\<rparr>
             \<and> fleiss_cc res =
               \<lparr>est_n1 = n1c, est_n2 = \<lceil>dmul (real_of_int n1c) r\<rceil>,
                est_total = n1c + \<lceil>dmul (real_of_int n1c) r\<rceil>\<rparr>
             \<and> 0 \<le> arg1 \<and> 0 \<le> arg2 \<and> 0 \<le> arg3
             \<and> dadd 1 r \<noteq> 0 \<and> den \<noteq> 0 \<and> cden \<noteq> 0)"
proof -
  define zAlpha where "zAlpha = rd (getZAlpha (dmul (dsub 1 alpha) 100))"
  define zBeta where "zBeta = rd (getZBeta (dmul (dsub 1 beta) 100))"
  define pAvg where "pAvg = ddiv (dadd p1 (dmul r p2)) (dadd 1 r)"
  define arg1 where "arg1 = dmul (dadd r 1) (dmul pAvg (dsub 1 pAvg))"
  define arg2 where "arg2 = dadd (dmul r (dmul p1 (dsub 1 p1))) (dmul p2 (dsub 1 p2))"
  define t1 where "t1 = dmul zAlpha (dsqrt arg1)"
  define t2 where "t2 = dmul zBeta (dsqrt arg2)"
  define den where "den = dmul r (dpow2 (dsub p1 p2))"
  define n1_raw where "n1_raw = ddiv (dpow2 (dadd t1 t2)) den"
  define cden where "cden = dmul (dmul n1_raw r) \<bar>dsub p1 p2\<bar>"
  define correctionTerm where "correctionTerm = ddiv (dmul 2 (dadd r 1)) cden"
  define arg3 where "arg3 = dadd 1 correctionTerm"
  note defs = zAlpha_def zBeta_def pAvg_def arg1_def arg2_def t1_def t2_def den_def
    n1_raw_def cden_def correctionTerm_def arg3_def
  have r: "js_or r 1 = r" using assms(6) by (simp add: js_or_def)
  have za: "0 < zAlpha" unfolding zAlpha_def by (intro rd_pos getZAlpha_pos)
  have zb: "0 < zBeta" unfolding zBeta_def by (intro rd_pos getZBeta_pos)
  have pa: "0 < pAvg" "pAvg \<le> 1"
    unfolding pAvg_def
    using double_p_avg_bounds[OF assms(1) assms(2) assms(3) assms(4) assms(6) assms(7)]
    by simp_all
  have r1: "0 < dadd r 1" using assms(6) by (simp add: dadd_def rd_pos)
  have d1: "0 < dadd 1 r" using assms(6) by (simp add: dadd_def rd_pos)
  have q: "0 \<le> dsub 1 pAvg" using pa(2) by (simp add: dsub_def rd_nonneg)
  have a1: "0 \<le> arg1" unfolding arg1_def using r1 pa(1) q by (intro dmul_nonneg) simp_all
  have q1: "0 < dmul p1 (dsub 1 p1)"
    using assms(1,2) by (intro dmul_pos) (simp_all add: dsub_def rd_pos)
  have q2: "0 < dmul p2 (dsub 1 p2)"
    using assms(3,4) by (intro dmul_pos) (simp_all add: dsub_def rd_pos)
  have "0 < dmul r (dmul p1 (dsub 1 p1))" using assms(6) q1 by (rule dmul_pos)
  then have a2: "0 < arg2" unfolding arg2_def using q2 by (intro dadd_pos) simp_all
  have t1: "0 \<le> t1" unfolding t1_def using za a1 by (intro dmul_nonneg dsqrt_nonneg) simp_all
  have t2: "0 < t2" unfolding t2_def using zb a2 by (intro dmul_pos dsqrt_pos)
  have s: "0 < dadd t1 t2" using t1 t2 by (rule dadd_pos)
  then have num: "0 < dpow2 (dadd t1 t2)" by (intro dpow2_pos) simp
  have df: "dsub p1 p2 \<noteq> 0" using assms(5) by (rule dsub_neq_0)
  then have "0 < dpow2 (dsub p1 p2)" by (rule dpow2_pos)
  then have dn: "0 < den" unfolding den_def using assms(6) by (simp add: dmul_pos)
  have raw: "0 < n1_raw" unfolding n1_raw_def using num dn by (rule ddiv_pos)
  have "0 < dmul n1_raw r" using raw assms(6) by (rule dmul_pos)
  moreover have "0 < \<bar>dsub p1 p2\<bar>" using df by simp
  ultimately have cd: "0 < cden" unfolding cden_def by (rule dmul_pos)
  have "0 < dmul 2 (dadd r 1)" using r1 by (intro dmul_pos) simp_all
  then have "0 < correctionTerm" unfolding correctionTerm_def using cd by (rule ddiv_pos)
  then have a3: "0 < arg3" unfolding arg3_def by (intro dadd_pos) simp_all
  have facts: "0 \<le> arg1 \<and> 0 \<le> arg2 \<and> 0 \<le> arg3
      \<and> dadd 1 r \<noteq> 0 \<and> den \<noteq> 0 \<and> cden \<noteq> 0"
    using a1 a2 a3 d1 dn cd by simp
  show ?thesis
    unfolding Let_def
    using facts[unfolded defs]
    by (simp add: calculateAdvanced_def Let_def r group_estimate_def apply_dropout_def)
qed

text \<open>
  1% against 4% at the ratio 1.1, confidence 95% and power 80%: Fleiss gives 410 and 452,
  the product \<open>410 * 1.1\<close> of the doubles being 451.00000000000006, and the
  continuity-corrected estimate 471 and 519. 1% against 5% at confidence 90% and power
  85%: Fleiss gives 250 and 275, the product \<open>250 * 1.1\<close> of the doubles being 275, and
  278 and 306 with dropout.
\<close>

theorem fleiss_estimates_witness:
  "0 < ddiv 1 100 \<and> ddiv 1 100 < 1 \<and> 0 < ddiv 4 100 \<and> ddiv 4 100 < 1
   \<and> ddiv 1 100 \<noteq> ddiv 4 100 \<and> 0 < rd 1.1 \<and> rd (rd 1.1) = rd 1.1
   \<and> fleiss (calculateAdvanced (ddiv 1 100) (ddiv 4 100) (rd 1.1) (ddiv 5 100) (ddiv 20 100)
         False) =
       \<lparr>est_n1 = 410, est_n2 = 452, est_total = 862\<rparr>
   \<and> fleiss_cc (calculateAdvanced (ddiv 1 100) (ddiv 4 100) (rd 1.1) (ddiv 5 100) (ddiv 20 100)
         False) =
       \<lparr>est_n1 = 471, est_n2 = 519, est_total = 990\<rparr>
   \<and> 0 < ddiv 5 100 \<and> ddiv 5 100 < 1 \<and> ddiv 1 100 \<noteq> ddiv 5 100
   \<and> fleiss (calculateAdvanced (ddiv 1 100) (ddiv 5 100) (rd 1.1) (ddiv 10 100) (ddiv 15 100)
         False) =
       \<lparr>est_n1 = 250, est_n2 = 275, est_total = 525\<rparr>
   \<and> fleiss_cc (calculateAdvanced (ddiv 1 100) (ddiv 5 100) (rd 1.1) (ddiv 10 100) (ddiv 15 100)
         False) =
       \<lparr>est_n1 = 296, est_n2 = 326, est_total = 622\<rparr>
   \<and> fleiss (calculateAdvanced (ddiv 1 100) (ddiv 5 100) (rd 1.1) (ddiv 10 100) (ddiv 15 100)
         True) =
       \<lparr>est_n1 = 278, est_n2 = 306, est_total = 584\<rparr>
   \<and> fleiss_cc (calculateAdvanced (ddiv 1 100) (ddiv 5 100) (rd 1.1) (ddiv 10 100) (ddiv 15 100)
         True) =
       \<lparr>est_n1 = 329, est_n2 = 362, est_total = 691\<rparr>"
proof -
  have a1: "ddiv 1 100 = 5764607523034235 / 576460752303423488"
    by (simp add: double_eval)
  have a2: "ddiv 4 100 = 5764607523034235 / 144115188075855872"
    by (simp add: double_eval)
  have a3: "rd (11 / 10) = 2476979795053773 / 2251799813685248"
    by (simp add: double_eval)
  have a4: "rd (2476979795053773 / 2251799813685248) = 2476979795053773 / 2251799813685248"
    by (simp add: double_eval)
  have a5: "ddiv 5 100 = 3602879701896397 / 72057594037927936"
    by (simp add: double_eval)
  have a6: "ddiv 20 100 = 3602879701896397 / 18014398509481984"
    by (simp add: double_eval)
  have a7:
    "dsub 1
       (3602879701896397 / 72057594037927936) =
       4278419646001971 / 4503599627370496"
    by (simp add: double_eval)
  have a8: "dmul (4278419646001971 / 4503599627370496) 100 = 95"
    by (simp add: double_eval)
  have a9: "getZAlpha 95 = 49 / 25"
    by (simp add: getZAlpha_def Z_ALPHA_MAP_def getZAlpha_range_def)
  have a10: "rd (49 / 25) = 2206763817411543 / 1125899906842624"
    by (simp add: double_eval)
  have a11:
    "dsub 1
       (3602879701896397 / 18014398509481984) =
       3602879701896397 / 4503599627370496"
    by (simp add: double_eval)
  have a12: "dmul (3602879701896397 / 4503599627370496) 100 = 80"
    by (simp add: double_eval)
  have a13: "getZBeta 80 = 421 / 500"
    by (simp add: getZBeta_def Z_MAP_def js_or_def)
  have a14: "rd (421 / 500) = 7584061772491915 / 9007199254740992"
    by (simp add: double_eval)
  have a15:
    "dmul (2476979795053773 / 2251799813685248)
       (5764607523034235 / 144115188075855872) =
       6341068275337659 / 144115188075855872"
    by (simp add: double_eval)
  have a16:
    "dadd (5764607523034235 / 576460752303423488)
       (6341068275337659 / 144115188075855872) =
       3891110078048109 / 72057594037927936"
    by (simp add: double_eval)
  have a17:
    "dadd 1
       (2476979795053773 / 2251799813685248) =
       4728779608739021 / 2251799813685248"
    by (simp add: double_eval)
  have a18:
    "ddiv (3891110078048109 / 72057594037927936)
       (4728779608739021 / 2251799813685248) =
       926454780487645 / 36028797018963968"
    by (simp add: double_eval)
  have a19:
    "dsub 1
       (926454780487645 / 36028797018963968) =
       8775585559619081 / 9007199254740992"
    by (simp add: double_eval)
  have a20:
    "dmul (926454780487645 / 36028797018963968)
       (8775585559619081 / 9007199254740992) =
       7221053260486559 / 288230376151711744"
    by (simp add: double_eval)
  have a21:
    "dsub 1
       (5764607523034235 / 576460752303423488) =
       4458563631096791 / 4503599627370496"
    by (simp add: double_eval)
  have a22:
    "dmul (5764607523034235 / 576460752303423488)
       (4458563631096791 / 4503599627370496) =
       5706961447803893 / 576460752303423488"
    by (simp add: double_eval)
  have a23:
    "dsub 1
       (5764607523034235 / 144115188075855872) =
       1080863910568919 / 1125899906842624"
    by (simp add: double_eval)
  have a24:
    "dmul (5764607523034235 / 144115188075855872)
       (1080863910568919 / 1125899906842624) =
       5534023222112865 / 144115188075855872"
    by (simp add: double_eval)
  have a25:
    "dadd (2476979795053773 / 2251799813685248)
       1 =
       4728779608739021 / 2251799813685248"
    by (simp add: double_eval)
  have a26:
    "dmul (4728779608739021 / 2251799813685248)
       (7221053260486559 / 288230376151711744) =
       7582105923510887 / 144115188075855872"
    by (simp add: double_eval)
  have a27:
    "dmul (2476979795053773 / 2251799813685248)
       (5706961447803893 / 576460752303423488) =
       6277657592584283 / 576460752303423488"
    by (simp add: double_eval)
  have a28:
    "dadd (6277657592584283 / 576460752303423488)
       (5534023222112865 / 144115188075855872) =
       887929702532367 / 18014398509481984"
    by (simp add: double_eval)
  have a29:
    "dsqrt (7582105923510887 / 144115188075855872) =
       1032998811286333 / 4503599627370496"
    using dsqrt_eval[where m = 8263990490290664 and k = "-3"
        and x = "7582105923510887 / 144115188075855872"]
    by (simp add: power2_eq_square)
  have a30:
    "dmul (2206763817411543 / 1125899906842624)
       (1032998811286333 / 4503599627370496) =
       8098710680484851 / 18014398509481984"
    by (simp add: double_eval)
  have a31:
    "dsqrt (887929702532367 / 18014398509481984) =
       7998879799027825 / 36028797018963968"
    using dsqrt_eval[where m = 7998879799027825 and k = "-3"
        and x = "887929702532367 / 18014398509481984"]
    by (simp add: power2_eq_square)
  have a32:
    "dmul (7584061772491915 / 9007199254740992)
       (7998879799027825 / 36028797018963968) =
       1683764197695357 / 9007199254740992"
    by (simp add: double_eval)
  have a33:
    "dsub (5764607523034235 / 576460752303423488)
       (5764607523034235 / 144115188075855872) =
       - (1080863910568919 / 36028797018963968)"
    by (simp add: double_eval)
  have a34:
    "dpow2 (- (1080863910568919 / 36028797018963968)) =
       4150517416584649 / 4611686018427387904"
    by (simp add: double_eval)
  have a35:
    "dmul (2476979795053773 / 2251799813685248)
       (4150517416584649 / 4611686018427387904) =
       2282784579121557 / 2305843009213693952"
    by (simp add: double_eval)
  have a36:
    "dadd (8098710680484851 / 18014398509481984)
       (1683764197695357 / 9007199254740992) =
       2866559768968891 / 4503599627370496"
    by (simp add: double_eval)
  have a37: "dpow2 (2866559768968891 / 4503599627370496) = 1824577135838497 / 4503599627370496"
    by (simp add: double_eval)
  have a38:
    "ddiv (1824577135838497 / 4503599627370496)
       (2282784579121557 / 2305843009213693952) =
       7199246905928413 / 17592186044416"
    by (simp add: double_eval)
  have a39: "\<lceil>7199246905928413 / 17592186044416 :: real\<rceil> = 410"
    by (simp add: ceiling_eq_iff)
  have a40:
    "dmul (7199246905928413 / 17592186044416)
       (2476979795053773 / 2251799813685248) =
       7919171596521255 / 17592186044416"
    by (simp add: double_eval)
  have a41:
    "dmul (7919171596521255 / 17592186044416)
       (1080863910568919 / 36028797018963968) =
       7602404732660405 / 562949953421312"
    by (simp add: double_eval)
  have a42:
    "dmul 2
       (4728779608739021 / 2251799813685248) =
       4728779608739021 / 1125899906842624"
    by (simp add: double_eval)
  have a43:
    "ddiv (4728779608739021 / 1125899906842624)
       (7602404732660405 / 562949953421312) =
       2801288649148477 / 9007199254740992"
    by (simp add: double_eval)
  have a44:
    "dadd 1
       (2801288649148477 / 9007199254740992) =
       2952121975972367 / 2251799813685248"
    by (simp add: double_eval)
  have a45: "ddiv (7199246905928413 / 17592186044416) 4 = 7199246905928413 / 70368744177664"
    by (simp add: double_eval)
  have a46: "dsqrt (2952121975972367 / 2251799813685248) = 5156583254625373 / 4503599627370496"
    using dsqrt_eval[where m = 5156583254625373 and k = "0"
        and x = "2952121975972367 / 2251799813685248"]
    by (simp add: power2_eq_square)
  have a47:
    "dadd 1
       (5156583254625373 / 4503599627370496) =
       2415045720498967 / 1125899906842624"
    by (simp add: double_eval)
  have a48: "dpow2 (2415045720498967 / 1125899906842624) = 5180252522141493 / 1125899906842624"
    by (simp add: double_eval)
  have a49:
    "dmul (7199246905928413 / 70368744177664)
       (5180252522141493 / 1125899906842624) =
       4140456526741665 / 8796093022208"
    by (simp add: double_eval)
  have a50: "\<lceil>4140456526741665 / 8796093022208 :: real\<rceil> = 471"
    by (simp add: ceiling_eq_iff)
  have a51:
    "dmul 410
       (2476979795053773 / 2251799813685248) =
       7934075906031617 / 17592186044416"
    by (simp add: double_eval)
  have a52: "\<lceil>7934075906031617 / 17592186044416 :: real\<rceil> = 452"
    by (simp add: ceiling_eq_iff)
  have a53: "dmul 471 (2476979795053773 / 2251799813685248) = 4557255794805965 / 8796093022208"
    by (simp add: double_eval)
  have a54: "\<lceil>4557255794805965 / 8796093022208 :: real\<rceil> = 519"
    by (simp add: ceiling_eq_iff)
  have b1: "ddiv 1 100 = 5764607523034235 / 576460752303423488"
    by (simp add: double_eval)
  have b2: "ddiv 5 100 = 3602879701896397 / 72057594037927936"
    by (simp add: double_eval)
  have b3: "rd (11 / 10) = 2476979795053773 / 2251799813685248"
    by (simp add: double_eval)
  have b4: "rd (2476979795053773 / 2251799813685248) = 2476979795053773 / 2251799813685248"
    by (simp add: double_eval)
  have b5: "ddiv 10 100 = 3602879701896397 / 36028797018963968"
    by (simp add: double_eval)
  have b6: "ddiv 15 100 = 5404319552844595 / 36028797018963968"
    by (simp add: double_eval)
  have b7:
    "dsub 1
       (3602879701896397 / 36028797018963968) =
       8106479329266893 / 9007199254740992"
    by (simp add: double_eval)
  have b8: "dmul (8106479329266893 / 9007199254740992) 100 = 90"
    by (simp add: double_eval)
  have b9: "getZAlpha 90 = 329 / 200"
    by (simp add: getZAlpha_def Z_ALPHA_MAP_def getZAlpha_range_def)
  have b10: "rd (329 / 200) = 3704210693512233 / 2251799813685248"
    by (simp add: double_eval)
  have b11:
    "dsub 1
       (5404319552844595 / 36028797018963968) =
       7656119366529843 / 9007199254740992"
    by (simp add: double_eval)
  have b12: "dmul (7656119366529843 / 9007199254740992) 100 = 85"
    by (simp add: double_eval)
  have b13: "getZBeta 85 = 259 / 250"
    by (simp add: getZBeta_def Z_MAP_def js_or_def)
  have b14: "rd (259 / 250) = 2332864606977917 / 2251799813685248"
    by (simp add: double_eval)
  have b15:
    "dmul (2476979795053773 / 2251799813685248)
       (3602879701896397 / 72057594037927936) =
       3963167672086037 / 72057594037927936"
    by (simp add: double_eval)
  have b16:
    "dadd (5764607523034235 / 576460752303423488)
       (3963167672086037 / 72057594037927936) =
       1170935903116329 / 18014398509481984"
    by (simp add: double_eval)
  have b17:
    "dadd 1
       (2476979795053773 / 2251799813685248) =
       4728779608739021 / 2251799813685248"
    by (simp add: double_eval)
  have b18:
    "ddiv (1170935903116329 / 18014398509481984)
       (4728779608739021 / 2251799813685248) =
       278794262646745 / 9007199254740992"
    by (simp add: double_eval)
  have b19: "dsub 1 (278794262646745 / 9007199254740992) = 8728404992094247 / 9007199254740992"
    by (simp add: double_eval)
  have b20:
    "dmul (278794262646745 / 9007199254740992)
       (8728404992094247 / 9007199254740992) =
       4322638662751437 / 144115188075855872"
    by (simp add: double_eval)
  have b21:
    "dsub 1
       (5764607523034235 / 576460752303423488) =
       4458563631096791 / 4503599627370496"
    by (simp add: double_eval)
  have b22:
    "dmul (5764607523034235 / 576460752303423488)
       (4458563631096791 / 4503599627370496) =
       5706961447803893 / 576460752303423488"
    by (simp add: double_eval)
  have b23:
    "dsub 1
       (3602879701896397 / 72057594037927936) =
       4278419646001971 / 4503599627370496"
    by (simp add: double_eval)
  have b24:
    "dmul (3602879701896397 / 72057594037927936)
       (4278419646001971 / 4503599627370496) =
       3422735716801577 / 72057594037927936"
    by (simp add: double_eval)
  have b25:
    "dadd (2476979795053773 / 2251799813685248)
       1 =
       4728779608739021 / 2251799813685248"
    by (simp add: double_eval)
  have b26:
    "dmul (4728779608739021 / 2251799813685248)
       (4322638662751437 / 144115188075855872) =
       4538770595889009 / 72057594037927936"
    by (simp add: double_eval)
  have b27:
    "dmul (2476979795053773 / 2251799813685248)
       (5706961447803893 / 576460752303423488) =
       6277657592584283 / 576460752303423488"
    by (simp add: double_eval)
  have b28:
    "dadd (6277657592584283 / 576460752303423488)
       (3422735716801577 / 72057594037927936) =
       8414885831749225 / 144115188075855872"
    by (simp add: double_eval)
  have b29:
    "dsqrt (4538770595889009 / 72057594037927936) =
       4521150911478835 / 18014398509481984"
    using dsqrt_eval[where m = 4521150911478835 and k = "-2"
        and x = "4538770595889009 / 72057594037927936"]
    by (simp add: power2_eq_square)
  have b30:
    "dmul (3704210693512233 / 2251799813685248)
       (4521150911478835 / 18014398509481984) =
       1859323312345671 / 4503599627370496"
    by (simp add: double_eval)
  have b31:
    "dsqrt (8414885831749225 / 144115188075855872) =
       8706006742040931 / 36028797018963968"
    using dsqrt_eval[where m = 8706006742040931 and k = "-3"
        and x = "8414885831749225 / 144115188075855872"]
    by (simp add: power2_eq_square)
  have b32:
    "dmul (2332864606977917 / 2251799813685248)
       (8706006742040931 / 36028797018963968) =
       2254855746188601 / 9007199254740992"
    by (simp add: double_eval)
  have b33:
    "dsub (5764607523034235 / 576460752303423488)
       (3602879701896397 / 72057594037927936) =
       - (5764607523034235 / 144115188075855872)"
    by (simp add: double_eval)
  have b34:
    "dpow2 (- (5764607523034235 / 144115188075855872)) =
       7378697629483821 / 4611686018427387904"
    by (simp add: double_eval)
  have b35:
    "dmul (2476979795053773 / 2251799813685248)
       (7378697629483821 / 4611686018427387904) =
       2029141848108051 / 1152921504606846976"
    by (simp add: double_eval)
  have b36:
    "dadd (1859323312345671 / 4503599627370496)
       (2254855746188601 / 9007199254740992) =
       5973502370879943 / 9007199254740992"
    by (simp add: double_eval)
  have b37:
    "dpow2 (5973502370879943 / 9007199254740992) =
       7923157813151849 / 18014398509481984"
    by (simp add: double_eval)
  have b38:
    "ddiv (7923157813151849 / 18014398509481984)
       (2029141848108051 / 1152921504606846976) =
       4396283410173921 / 17592186044416"
    by (simp add: double_eval)
  have b39: "\<lceil>4396283410173921 / 17592186044416 :: real\<rceil> = 250"
    by (simp add: ceiling_eq_iff)
  have b40:
    "dmul (4396283410173921 / 17592186044416)
       (2476979795053773 / 2251799813685248) =
       4835911751191313 / 17592186044416"
    by (simp add: double_eval)
  have b41:
    "dmul (4835911751191313 / 17592186044416)
       (5764607523034235 / 144115188075855872) =
       6189967041524881 / 562949953421312"
    by (simp add: double_eval)
  have b42:
    "dmul 2
       (4728779608739021 / 2251799813685248) =
       4728779608739021 / 1125899906842624"
    by (simp add: double_eval)
  have b43:
    "ddiv (4728779608739021 / 1125899906842624)
       (6189967041524881 / 562949953421312) =
       6880983352889683 / 18014398509481984"
    by (simp add: double_eval)
  have b44:
    "dadd 1
       (6880983352889683 / 18014398509481984) =
       6223845465592917 / 4503599627370496"
    by (simp add: double_eval)
  have b45: "ddiv (4396283410173921 / 17592186044416) 4 = 4396283410173921 / 70368744177664"
    by (simp add: double_eval)
  have b46: "dsqrt (6223845465592917 / 4503599627370496) = 1323577257842733 / 1125899906842624"
    using dsqrt_eval[where m = 5294309031370932 and k = "0"
        and x = "6223845465592917 / 4503599627370496"]
    by (simp add: power2_eq_square)
  have b47:
    "dadd 1
       (1323577257842733 / 1125899906842624) =
       2449477164685357 / 1125899906842624"
    by (simp add: double_eval)
  have b48: "dpow2 (2449477164685357 / 1125899906842624) = 5329015788926319 / 1125899906842624"
    by (simp add: double_eval)
  have b49:
    "dmul (4396283410173921 / 70368744177664)
       (5329015788926319 / 1125899906842624) =
       5202030740705613 / 17592186044416"
    by (simp add: double_eval)
  have b50: "\<lceil>5202030740705613 / 17592186044416 :: real\<rceil> = 296"
    by (simp add: ceiling_eq_iff)
  have b51: "dmul 250 (2476979795053773 / 2251799813685248) = 275"
    by (simp add: double_eval)
  have b52: "dmul 296 (2476979795053773 / 2251799813685248) = 2864007888030925 / 8796093022208"
    by (simp add: double_eval)
  have b53: "\<lceil>2864007888030925 / 8796093022208 :: real\<rceil> = 326"
    by (simp add: ceiling_eq_iff)
  have b54: "rd (9 / 10) = 8106479329266893 / 9007199254740992"
    by (simp add: double_eval)
  have b55:
    "ddiv 250
       (8106479329266893 / 9007199254740992) =
       4886718345671111 / 17592186044416"
    by (simp add: double_eval)
  have b56: "\<lceil>4886718345671111 / 17592186044416 :: real\<rceil> = 278"
    by (simp add: ceiling_eq_iff)
  have b57:
    "dmul 278
       (2476979795053773 / 2251799813685248) =
       5379690492382413 / 17592186044416"
    by (simp add: double_eval)
  have b58: "\<lceil>5379690492382413 / 17592186044416 :: real\<rceil> = 306"
    by (simp add: ceiling_eq_iff)
  have b59:
    "ddiv 296
       (8106479329266893 / 9007199254740992) =
       5785874521274595 / 17592186044416"
    by (simp add: double_eval)
  have b60: "\<lceil>5785874521274595 / 17592186044416 :: real\<rceil> = 329"
    by (simp add: ceiling_eq_iff)
  have b61:
    "dmul 329
       (2476979795053773 / 2251799813685248) =
       6366612129474151 / 17592186044416"
    by (simp add: double_eval)
  have b62: "\<lceil>6366612129474151 / 17592186044416 :: real\<rceil> = 362"
    by (simp add: ceiling_eq_iff)
  have a: "0 < ddiv 1 100 \<and> ddiv 1 100 < 1 \<and> 0 < ddiv 4 100 \<and> ddiv 4 100 < 1
      \<and> ddiv 1 100 \<noteq> ddiv 4 100 \<and> 0 < rd 1.1 \<and> rd (rd 1.1) = rd 1.1
      \<and> fleiss (calculateAdvanced (ddiv 1 100) (ddiv 4 100) (rd 1.1) (ddiv 5 100) (ddiv 20 100)
            False) =
          \<lparr>est_n1 = 410, est_n2 = 452, est_total = 862\<rparr>
      \<and> fleiss_cc (calculateAdvanced (ddiv 1 100) (ddiv 4 100) (rd 1.1) (ddiv 5 100) (ddiv 20 100)
            False) =
          \<lparr>est_n1 = 471, est_n2 = 519, est_total = 990\<rparr>"
    using fleiss_estimates[of "ddiv 1 100" "ddiv 4 100" "rd 1.1" "ddiv 5 100" "ddiv 20 100"
        False]
    by (simp add: Let_def
      a1 a2 a3 a4 a5 a6 a7 a8 a9 a10 a11 a12 a13 a14 a15 a16 a17 a18 a19 a20 a21 a22
      a23 a24 a25 a26 a27 a28 a29 a30 a31 a32 a33 a34 a35 a36 a37 a38 a39 a40 a41 a42
      a43 a44 a45 a46 a47 a48 a49 a50 a51 a52 a53 a54)
  have b: "0 < ddiv 5 100 \<and> ddiv 5 100 < 1 \<and> ddiv 1 100 \<noteq> ddiv 5 100
      \<and> fleiss (calculateAdvanced (ddiv 1 100) (ddiv 5 100) (rd 1.1) (ddiv 10 100) (ddiv 15 100)
            False) =
          \<lparr>est_n1 = 250, est_n2 = 275, est_total = 525\<rparr>
      \<and> fleiss_cc (calculateAdvanced (ddiv 1 100) (ddiv 5 100) (rd 1.1) (ddiv 10 100) (ddiv 15 100)
            False) =
          \<lparr>est_n1 = 296, est_n2 = 326, est_total = 622\<rparr>"
    using fleiss_estimates[of "ddiv 1 100" "ddiv 5 100" "rd 1.1" "ddiv 10 100" "ddiv 15 100"
        False]
    by (simp add: Let_def
      b1 b2 b3 b4 b5 b6 b7 b8 b9 b10 b11 b12 b13 b14 b15 b16 b17 b18 b19 b20 b21 b22
      b23 b24 b25 b26 b27 b28 b29 b30 b31 b32 b33 b34 b35 b36 b37 b38 b39 b40 b41 b42
      b43 b44 b45 b46 b47 b48 b49 b50 b51 b52 b53 b54 b55 b56 b57 b58 b59 b60 b61 b62)
  have c: "fleiss (calculateAdvanced (ddiv 1 100) (ddiv 5 100) (rd 1.1) (ddiv 10 100) (ddiv 15 100)
            True) =
          \<lparr>est_n1 = 278, est_n2 = 306, est_total = 584\<rparr>
      \<and> fleiss_cc (calculateAdvanced (ddiv 1 100) (ddiv 5 100) (rd 1.1) (ddiv 10 100) (ddiv 15 100)
            True) =
          \<lparr>est_n1 = 329, est_n2 = 362, est_total = 691\<rparr>"
    using fleiss_estimates[of "ddiv 1 100" "ddiv 5 100" "rd 1.1" "ddiv 10 100" "ddiv 15 100"
        True]
    by (simp add: Let_def
      b1 b2 b3 b4 b5 b6 b7 b8 b9 b10 b11 b12 b13 b14 b15 b16 b17 b18 b19 b20 b21 b22
      b23 b24 b25 b26 b27 b28 b29 b30 b31 b32 b33 b34 b35 b36 b37 b38 b39 b40 b41 b42
      b43 b44 b45 b46 b47 b48 b49 b50 b51 b52 b53 b54 b55 b56 b57 b58 b59 b60 b61 b62)
  show ?thesis using a b c by blast
qed

text \<open>
  Claim C3. The prevalence calculator computes the raw value \<open>n = 4 P Q / D\<^sup>2\<close> with
  \<open>P = prevalence / 100\<close>, \<open>Q = 1 - P\<close>, \<open>D = precision / 100\<close>, applies the finite
  population correction \<open>n / (1 + n / population)\<close> only when the option is enabled and
  the population is positive, then the dropout inflation \<open>n / 0.9\<close> when enabled, and
  rounds up only after both. So 50% with precision 5% gives 400, with the correction for
  a population of 1000 it gives 286, and with dropout alone 445. The numbers are doubles
  and each operation is the operation on doubles. For a prevalence strictly between 0 and
  100 and a positive precision the raw value is not negative and no divisor is zero.
\<close>

theorem prevalence_pipeline:
  assumes "0 < prevalence" "prevalence < 100" "0 < precision"
  shows "(let P = ddiv prevalence 100;
              Q = dsub 1 P;
              D = ddiv precision 100;
              raw = ddiv (dmul (dmul 4 P) Q) (dmul D D)
          in prevalence_calc prevalence precision fpc dropout popSize =
               \<lceil>spec_applyDropout (if fpc then spec_applyFPC raw popSize else raw) dropout\<rceil>
             \<and> 0 \<le> raw \<and> dmul D D \<noteq> 0
             \<and> (0 < popSize \<longrightarrow> dadd 1 (ddiv raw (real_of_int popSize)) \<noteq> 0))
     \<and> prevalence_calc 50 5 False False popSize = 400
     \<and> prevalence_calc 50 5 True False 1000 = 286
     \<and> prevalence_calc 50 5 False True popSize = 445"
proof -
  define P where "P = ddiv prevalence 100"
  define Q where "Q = dsub 1 P"
  define D where "D = ddiv precision 100"
  define raw where "raw = ddiv (dmul (dmul 4 P) Q) (dmul D D)"
  note defs = P_def Q_def D_def raw_def
  have P: "0 < P" unfolding P_def using assms(1) by (intro ddiv_pos) simp_all
  have "0 \<le> prevalence / 100" "prevalence / 100 \<le> 1" using assms by simp_all
  then have "rd (prevalence / 100) \<le> rd 1" by (intro rd_mono)
  then have "P \<le> 1" by (simp add: P_def ddiv_def)
  then have Q: "0 \<le> Q" by (simp add: Q_def dsub_def rd_nonneg)
  have D: "0 < D" unfolding D_def using assms(3) by (intro ddiv_pos) simp_all
  have DD: "0 < dmul D D" using D by (intro dmul_pos)
  have "0 \<le> dmul (dmul 4 P) Q" using P Q by (intro dmul_nonneg) simp_all
  then have "0 \<le> dmul (dmul 4 P) Q / dmul D D" using DD by simp
  then have raw: "0 \<le> raw" by (simp add: raw_def ddiv_def rd_nonneg)
  have d: "dadd 1 (ddiv raw (real_of_int popSize)) \<noteq> 0" if "0 < popSize"
  proof -
    have "0 \<le> raw / real_of_int popSize" using raw that by simp
    then have "0 \<le> ddiv raw (real_of_int popSize)" by (simp add: ddiv_def rd_nonneg)
    then have "0 < 1 + ddiv raw (real_of_int popSize)" by linarith
    then have "0 < dadd 1 (ddiv raw (real_of_int popSize))" by (simp add: dadd_def rd_pos)
    then show ?thesis by simp
  qed
  have facts: "0 \<le> raw \<and> dmul D D \<noteq> 0
      \<and> (0 < popSize \<longrightarrow> dadd 1 (ddiv raw (real_of_int popSize)) \<noteq> 0)"
    using raw DD d by simp
  have pipeline: "prevalence_calc prevalence precision fpc dropout popSize =
      \<lceil>spec_applyDropout (if fpc then spec_applyFPC raw popSize else raw) dropout\<rceil>"
    by (simp add: prevalence_calc_def spec_applyFPC_def spec_applyDropout_def Let_def defs)
  show ?thesis
    unfolding Let_def
    using facts[unfolded defs] pipeline[unfolded defs] prevalence_calc_examples
    by simp
qed

text \<open>
  A prevalence of 5% with precision 9% in a population of 100: the corrected value of the
  doubles is 19.000000000000004, and the result is 20. A prevalence of 10% with precision
  3% gives 401, the quotient of the doubles being 400.00000000000006, and with precision 1%
  and dropout 4001.
\<close>

theorem prevalence_pipeline_witness:
  "(0::real) < 5 \<and> (5::real) < 100 \<and> (0::real) < 9 \<and> (0::int) < 100
   \<and> prevalence_calc 5 9 True False 100 = 20
   \<and> (0::real) < 10 \<and> (10::real) < 100 \<and> (0::real) < 3
   \<and> prevalence_calc 10 3 False False 0 = 401
   \<and> (0::real) < 1
   \<and> prevalence_calc 10 1 False True 0 = 4001"
proof -
  have a1: "ddiv 5 100 = 3602879701896397 / 72057594037927936"
    by (simp add: double_eval)
  have a2:
    "dsub 1
       (3602879701896397 / 72057594037927936) =
       4278419646001971 / 4503599627370496"
    by (simp add: double_eval)
  have a3: "ddiv 9 100 = 3242591731706757 / 36028797018963968"
    by (simp add: double_eval)
  have a4:
    "dmul 4
       (3602879701896397 / 72057594037927936) =
       3602879701896397 / 18014398509481984"
    by (simp add: double_eval)
  have a5:
    "dmul (3602879701896397 / 18014398509481984)
       (4278419646001971 / 4503599627370496) =
       3422735716801577 / 18014398509481984"
    by (simp add: double_eval)
  have a6:
    "dmul (3242591731706757 / 36028797018963968)
       (3242591731706757 / 36028797018963968) =
       2334666046828865 / 288230376151711744"
    by (simp add: double_eval)
  have a7:
    "ddiv (3422735716801577 / 18014398509481984)
       (2334666046828865 / 288230376151711744) =
       3301249726853373 / 140737488355328"
    by (simp add: double_eval)
  have a8:
    "ddiv (3301249726853373 / 140737488355328)
       100 =
       8451199300744635 / 36028797018963968"
    by (simp add: double_eval)
  have a9:
    "dadd 1
       (8451199300744635 / 36028797018963968) =
       5559999539963575 / 4503599627370496"
    by (simp add: double_eval)
  have a10:
    "ddiv (3301249726853373 / 140737488355328)
       (5559999539963575 / 4503599627370496) =
       5348024557502465 / 281474976710656"
    by (simp add: double_eval)
  have a11: "\<lceil>5348024557502465 / 281474976710656 :: real\<rceil> = 20"
    by (simp add: ceiling_eq_iff)
  have b1: "ddiv 10 100 = 3602879701896397 / 36028797018963968"
    by (simp add: double_eval)
  have b2:
    "dsub 1
       (3602879701896397 / 36028797018963968) =
       8106479329266893 / 9007199254740992"
    by (simp add: double_eval)
  have b3: "ddiv 3 100 = 1080863910568919 / 36028797018963968"
    by (simp add: double_eval)
  have b4:
    "dmul 4
       (3602879701896397 / 36028797018963968) =
       3602879701896397 / 9007199254740992"
    by (simp add: double_eval)
  have b5:
    "dmul (3602879701896397 / 9007199254740992)
       (8106479329266893 / 9007199254740992) =
       6485183463413515 / 18014398509481984"
    by (simp add: double_eval)
  have b6:
    "dmul (1080863910568919 / 36028797018963968)
       (1080863910568919 / 36028797018963968) =
       4150517416584649 / 4611686018427387904"
    by (simp add: double_eval)
  have b7:
    "ddiv (6485183463413515 / 18014398509481984)
       (4150517416584649 / 4611686018427387904) =
       7036874417766401 / 17592186044416"
    by (simp add: double_eval)
  have b8: "\<lceil>7036874417766401 / 17592186044416 :: real\<rceil> = 401"
    by (simp add: ceiling_eq_iff)
  have c1: "ddiv 10 100 = 3602879701896397 / 36028797018963968"
    by (simp add: double_eval)
  have c2:
    "dsub 1
       (3602879701896397 / 36028797018963968) =
       8106479329266893 / 9007199254740992"
    by (simp add: double_eval)
  have c3: "ddiv 1 100 = 5764607523034235 / 576460752303423488"
    by (simp add: double_eval)
  have c4:
    "dmul 4
       (3602879701896397 / 36028797018963968) =
       3602879701896397 / 9007199254740992"
    by (simp add: double_eval)
  have c5:
    "dmul (3602879701896397 / 9007199254740992)
       (8106479329266893 / 9007199254740992) =
       6485183463413515 / 18014398509481984"
    by (simp add: double_eval)
  have c6:
    "dmul (5764607523034235 / 576460752303423488)
       (5764607523034235 / 576460752303423488) =
       7378697629483821 / 73786976294838206464"
    by (simp add: double_eval)
  have c7:
    "ddiv (6485183463413515 / 18014398509481984)
       (7378697629483821 / 73786976294838206464) =
       7916483719987201 / 2199023255552"
    by (simp add: double_eval)
  have c8: "rd (9 / 10) = 8106479329266893 / 9007199254740992"
    by (simp add: double_eval)
  have c9:
    "ddiv (7916483719987201 / 2199023255552)
       (8106479329266893 / 9007199254740992) =
       8796093022208001 / 2199023255552"
    by (simp add: double_eval)
  have c10: "\<lceil>8796093022208001 / 2199023255552 :: real\<rceil> = 4001"
    by (simp add: ceiling_eq_iff)
  have a: "prevalence_calc 5 9 True False 100 = 20"
    using prevalence_pipeline[of 5 9 True False 100]
    by (simp add: Let_def spec_applyFPC_def spec_applyDropout_def
      a1 a2 a3 a4 a5 a6 a7 a8 a9 a10 a11)
  have b: "prevalence_calc 10 3 False False 0 = 401"
    using prevalence_pipeline[of 10 3 False False 0]
    by (simp add: Let_def spec_applyFPC_def spec_applyDropout_def
      b1 b2 b3 b4 b5 b6 b7 b8)
  have c: "prevalence_calc 10 1 False True 0 = 4001"
    using prevalence_pipeline[of 10 1 False True 0]
    by (simp add: Let_def spec_applyFPC_def spec_applyDropout_def
      c1 c2 c3 c4 c5 c6 c7 c8 c9 c10)
  show ?thesis using a b c by simp
qed









text \<open>
  Claim C7. For counts \<open>n1\<close>, \<open>n2\<close> that are non-negative integers and a drawing area
  of positive width and height, the layout takes the largest cell size \<open>s\<close> of the
  sequence 20, 15, 12, 10, 8, 6, 5, 4, 3 with
  \<open>floor(width / s) * floor(height / s) \<ge> max(n1, n2)\<close>, and the scale 1 with it; when
  no size of the sequence has room, the cell size is 3 and the scale is
  \<open>ceil(max(n1, n2) / capacity(3))\<close>, which is \<open>Infinity\<close> when the capacity is 0.
  The layout is a function of its four arguments: the source reads nothing else.
\<close>

theorem packGrid_cell_size:
  assumes "0 < groupW" "0 < groupH" "0 \<le> n1" "0 \<le> n2"
  shows "PRESET_SIZES = [20, 15, 12, 10, 8, 6, 5, 4, 3]
    \<and> ((\<exists>s\<in>set PRESET_SIZES. max n1 n2 \<le> getCapacity groupW groupH s) \<longrightarrow>
         bestCellSize (packGrid groupW groupH n1 n2) \<in> set PRESET_SIZES
       \<and> max n1 n2 \<le> getCapacity groupW groupH (bestCellSize (packGrid groupW groupH n1 n2))
       \<and> (\<forall>t\<in>set PRESET_SIZES. max n1 n2 \<le> getCapacity groupW groupH t \<longrightarrow>
             t \<le> bestCellSize (packGrid groupW groupH n1 n2))
       \<and> scale (packGrid groupW groupH n1 n2) = Finite 1)
    \<and> ((\<forall>s\<in>set PRESET_SIZES. \<not> max n1 n2 \<le> getCapacity groupW groupH s) \<longrightarrow>
         bestCellSize (packGrid groupW groupH n1 n2) = 3
       \<and> 0 \<le> getCapacity groupW groupH 3
       \<and> scale (packGrid groupW groupH n1 n2) =
           (if getCapacity groupW groupH 3 = 0 then Infinity
            else Finite \<lceil>real_of_int (max n1 n2)
                          / real_of_int (getCapacity groupW groupH 3)\<rceil>))
    \<and> getCapacity groupW groupH 3 = \<lfloor>groupW / 3\<rfloor> * \<lfloor>groupH / 3\<rfloor>"
proof -
  let ?L = "packGrid groupW groupH n1 n2"
  let ?f = "findCellSize groupW groupH (max n1 n2) PRESET_SIZES"
  have a: "PRESET_SIZES = [20, 15, 12, 10, 8, 6, 5, 4, 3]" by (simp add: PRESET_SIZES_def)
  have b: "bestCellSize ?L \<in> set PRESET_SIZES
       \<and> max n1 n2 \<le> getCapacity groupW groupH (bestCellSize ?L)
       \<and> (\<forall>t\<in>set PRESET_SIZES. max n1 n2 \<le> getCapacity groupW groupH t \<longrightarrow>
             t \<le> bestCellSize ?L)
       \<and> scale ?L = Finite 1"
    if "\<exists>s\<in>set PRESET_SIZES. max n1 n2 \<le> getCapacity groupW groupH s"
  proof -
    have nz: "?f \<noteq> 0" using that findCellSize_presets[of groupW groupH "max n1 n2"] by blast
    then have "bestCellSize ?L = ?f" "scale ?L = Finite 1"
      by (simp_all add: packGrid_def Let_def)
    then show ?thesis
      using findCellSize_fits[OF nz] findCellSize_largest[OF PRESET_SIZES_descending(2)]
      by simp
  qed
  have c: "bestCellSize ?L = 3
       \<and> 0 \<le> getCapacity groupW groupH 3
       \<and> scale ?L =
           (if getCapacity groupW groupH 3 = 0 then Infinity
            else Finite \<lceil>real_of_int (max n1 n2)
                          / real_of_int (getCapacity groupW groupH 3)\<rceil>)"
    if "\<forall>s\<in>set PRESET_SIZES. \<not> max n1 n2 \<le> getCapacity groupW groupH s"
  proof -
    have z: "?f = 0" using that findCellSize_presets[of groupW groupH "max n1 n2"] by blast
    then show ?thesis using getCapacity_nonneg[OF assms(1,2), of 3]
      by (simp add: packGrid_def Let_def)
  qed
  have d: "getCapacity groupW groupH 3 = \<lfloor>groupW / 3\<rfloor> * \<lfloor>groupH / 3\<rfloor>"
    by (simp add: getCapacity_def Let_def)
  show ?thesis using a b c d by blast
qed

text \<open>
  Two groups of 50 in an area of 500 by 400 get cells of 20 pixels; 100000 and 3
  participants in an area of 50 by 40, where no size has room for them and 208 cells of
  3 pixels fit, get the scale 481.
\<close>

theorem packGrid_cell_size_witness:
  "(0::real) < 500 \<and> (0::real) < 400 \<and> (0::int) \<le> 50
   \<and> max 50 50 \<le> getCapacity 500 400 20
   \<and> bestCellSize (packGrid 500 400 50 50) = 20
   \<and> scale (packGrid 500 400 50 50) = Finite 1
   \<and> (0::real) < 50 \<and> (0::real) < 40 \<and> (0::int) \<le> 100000 \<and> (0::int) \<le> 3
   \<and> map (getCapacity 50 40) PRESET_SIZES = [4, 6, 12, 20, 30, 48, 80, 120, 208]
   \<and> bestCellSize (packGrid 50 40 100000 3) = 3
   \<and> scale (packGrid 50 40 100000 3) = Finite 481"
proof -
  have h1: "(0::real) < 500" "(0::real) < 400" "(0::int) \<le> 50" "(0::int) \<le> 50"
    by simp_all
  have h2: "(0::real) < 50" "(0::real) < 40" "(0::int) \<le> 100000" "(0::int) \<le> 3"
    by simp_all
  have m: "20 \<in> set PRESET_SIZES" "\<forall>t\<in>set PRESET_SIZES. t \<le> 20"
    by (simp_all add: PRESET_SIZES_def)
  have g: "max 50 50 \<le> getCapacity 500 400 20" by (simp add: getCapacity_def)
  have f: "\<exists>s\<in>set PRESET_SIZES. max 50 50 \<le> getCapacity 500 400 s"
    using m(1) g by blast
  have n: "\<forall>s\<in>set PRESET_SIZES. \<not> max 100000 3 \<le> getCapacity 50 40 s"
    by (simp add: PRESET_SIZES_def getCapacity_def)
  have c: "getCapacity 50 40 3 = 208" by (simp add: getCapacity_def)
  have caps: "map (getCapacity 50 40) PRESET_SIZES = [4, 6, 12, 20, 30, 48, 80, 120, 208]"
    by (simp add: PRESET_SIZES_def getCapacity_def)
  note T1 = packGrid_cell_size[OF h1]
  note T2 = packGrid_cell_size[OF h2]
  have s1: "scale (packGrid 500 400 50 50) = Finite 1" using T1 f by blast
  have "20 \<le> bestCellSize (packGrid 500 400 50 50)" using T1 f m(1) g by blast
  moreover have "bestCellSize (packGrid 500 400 50 50) \<le> 20" using T1 f m(2) by blast
  ultimately have b1: "bestCellSize (packGrid 500 400 50 50) = 20" by simp
  have b2: "bestCellSize (packGrid 50 40 100000 3) = 3" using T2 n by blast
  have "scale (packGrid 50 40 100000 3) =
      (if getCapacity 50 40 3 = 0 then Infinity
       else Finite \<lceil>real_of_int (max 100000 3) / real_of_int (getCapacity 50 40 3)\<rceil>)"
    using T2 n by blast
  then have s2: "scale (packGrid 50 40 100000 3) = Finite 481"
    by (simp add: c ceiling_eq_iff)
  show ?thesis using h1 h2 g caps b1 s1 b2 s2 by blast
qed

text \<open>
  Claim C8. The numbers of dots are \<open>ceil(n1 / scale)\<close> and \<open>ceil(n2 / scale)\<close>. When
  a size of the sequence has room the scale is 1, and at scale 1 each number of dots is
  the count itself. When none has room, the scale exceeds 1 (or is \<open>Infinity\<close>) and
  neither number of dots, so not that of the larger group, exceeds the capacity at 3
  pixels.
\<close>

theorem packGrid_scaled_counts:
  assumes "0 < groupW" "0 < groupH" "0 \<le> n1" "0 \<le> n2"
  shows "(\<forall>k. scale (packGrid groupW groupH n1 n2) = Finite k \<longrightarrow>
            sN1 (packGrid groupW groupH n1 n2) = \<lceil>real_of_int n1 / real_of_int k\<rceil>
          \<and> sN2 (packGrid groupW groupH n1 n2) = \<lceil>real_of_int n2 / real_of_int k\<rceil>)
    \<and> (scale (packGrid groupW groupH n1 n2) = Infinity \<longrightarrow>
          sN1 (packGrid groupW groupH n1 n2) = 0 \<and> sN2 (packGrid groupW groupH n1 n2) = 0)
    \<and> (scale (packGrid groupW groupH n1 n2) = Finite 1 \<longrightarrow>
          sN1 (packGrid groupW groupH n1 n2) = n1 \<and> sN2 (packGrid groupW groupH n1 n2) = n2)
    \<and> ((\<exists>s\<in>set PRESET_SIZES. max n1 n2 \<le> getCapacity groupW groupH s) \<longrightarrow>
          scale (packGrid groupW groupH n1 n2) = Finite 1)
    \<and> ((\<forall>s\<in>set PRESET_SIZES. \<not> max n1 n2 \<le> getCapacity groupW groupH s) \<longrightarrow>
          scale (packGrid groupW groupH n1 n2) \<noteq> Finite 1
        \<and> (\<forall>k. scale (packGrid groupW groupH n1 n2) = Finite k \<longrightarrow> 1 < k)
        \<and> max (sN1 (packGrid groupW groupH n1 n2)) (sN2 (packGrid groupW groupH n1 n2))
            \<le> getCapacity groupW groupH 3)"
proof -
  let ?L = "packGrid groupW groupH n1 n2"
  let ?f = "findCellSize groupW groupH (max n1 n2) PRESET_SIZES"
  let ?c = "getCapacity groupW groupH 3"
  have s: "sN1 ?L = ceil_div n1 (scale ?L)" "sN2 ?L = ceil_div n2 (scale ?L)"
    by (simp_all add: packGrid_def Let_def)
  have a: "\<forall>k. scale ?L = Finite k \<longrightarrow>
            sN1 ?L = \<lceil>real_of_int n1 / real_of_int k\<rceil>
          \<and> sN2 ?L = \<lceil>real_of_int n2 / real_of_int k\<rceil>"
    using s by (simp add: ceil_div_def)
  have i: "scale ?L = Infinity \<longrightarrow> sN1 ?L = 0 \<and> sN2 ?L = 0"
    using s by (simp add: ceil_div_def)
  have b: "scale ?L = Finite 1 \<longrightarrow> sN1 ?L = n1 \<and> sN2 ?L = n2"
    using s by (simp add: ceil_div_def)
  have c: "scale ?L = Finite 1"
    if "\<exists>s\<in>set PRESET_SIZES. max n1 n2 \<le> getCapacity groupW groupH s"
  proof -
    have "?f \<noteq> 0" using that findCellSize_presets[of groupW groupH "max n1 n2"] by blast
    then show ?thesis by (simp add: packGrid_def Let_def)
  qed
  have d: "scale ?L \<noteq> Finite 1 \<and> (\<forall>k. scale ?L = Finite k \<longrightarrow> 1 < k)
        \<and> max (sN1 ?L) (sN2 ?L) \<le> ?c"
    if n: "\<forall>s\<in>set PRESET_SIZES. \<not> max n1 n2 \<le> getCapacity groupW groupH s"
  proof -
    have z: "?f = 0" using n findCellSize_presets[of groupW groupH "max n1 n2"] by blast
    have c0: "0 \<le> ?c" using getCapacity_nonneg[OF assms(1,2), of 3] by simp
    have "3 \<in> set PRESET_SIZES" by (simp add: PRESET_SIZES_def)
    then have lt: "?c < max n1 n2" using n by fastforce
    show ?thesis
    proof (cases "?c = 0")
      case True
      then have "scale ?L = Infinity" using z by (simp add: packGrid_def Let_def)
      then show ?thesis using s True by (simp add: ceil_div_def)
    next
      case False
      then have pos: "0 < ?c" using c0 by simp
      define k where "k = \<lceil>real_of_int (max n1 n2) / real_of_int ?c\<rceil>"
      have sc: "scale ?L = Finite k" using z False by (simp add: packGrid_def Let_def k_def)
      have k1: "1 < k" and le: "\<lceil>real_of_int (max n1 n2) / real_of_int k\<rceil> \<le> ?c"
        unfolding k_def using ceil_scaled_le[OF pos lt] by blast+
      have m: "ceil_div (max n1 n2) (scale ?L) \<le> ?c" using sc le by (simp add: ceil_div_def)
      have "ceil_div n1 (scale ?L) \<le> ceil_div (max n1 n2) (scale ?L)"
           "ceil_div n2 (scale ?L) \<le> ceil_div (max n1 n2) (scale ?L)"
        using sc k1 by (auto intro!: ceil_div_mono)
      then have le1: "sN1 ?L \<le> ?c" "sN2 ?L \<le> ?c" using s m by linarith+
      have ne: "scale ?L \<noteq> Finite 1" using sc k1 by simp
      have gt: "\<forall>j. scale ?L = Finite j \<longrightarrow> 1 < j" using sc k1 by simp
      show ?thesis using le1 ne gt by simp
    qed
  qed
  show ?thesis using a i b c d by blast
qed

text \<open>
  100000 and 3 participants in an area of 50 by 40: neither number of dots exceeds the
  208 cells; and two groups of 50 in an area of 500 by 400 keep their counts.
\<close>

theorem packGrid_scaled_counts_witness:
  "(0::real) < 50 \<and> (0::real) < 40 \<and> (0::int) \<le> 100000 \<and> (0::int) \<le> 3
   \<and> map (getCapacity 50 40) PRESET_SIZES = [4, 6, 12, 20, 30, 48, 80, 120, 208]
   \<and> max (sN1 (packGrid 50 40 100000 3)) (sN2 (packGrid 50 40 100000 3)) \<le> 208
   \<and> (0::real) < 500 \<and> (0::real) < 400 \<and> (0::int) \<le> 50
   \<and> max 50 50 \<le> getCapacity 500 400 20
   \<and> sN1 (packGrid 500 400 50 50) = 50 \<and> sN2 (packGrid 500 400 50 50) = 50"
proof -
  have h1: "(0::real) < 500" "(0::real) < 400" "(0::int) \<le> 50" "(0::int) \<le> 50"
    by simp_all
  have h2: "(0::real) < 50" "(0::real) < 40" "(0::int) \<le> 100000" "(0::int) \<le> 3"
    by simp_all
  have m: "20 \<in> set PRESET_SIZES" by (simp add: PRESET_SIZES_def)
  have g: "max 50 50 \<le> getCapacity 500 400 20" by (simp add: getCapacity_def)
  have f: "\<exists>s\<in>set PRESET_SIZES. max 50 50 \<le> getCapacity 500 400 s"
    using m g by blast
  have n: "\<forall>s\<in>set PRESET_SIZES. \<not> max 100000 3 \<le> getCapacity 50 40 s"
    by (simp add: PRESET_SIZES_def getCapacity_def)
  have c: "getCapacity 50 40 3 = 208" by (simp add: getCapacity_def)
  have caps: "map (getCapacity 50 40) PRESET_SIZES = [4, 6, 12, 20, 30, 48, 80, 120, 208]"
    by (simp add: PRESET_SIZES_def getCapacity_def)
  note T1 = packGrid_scaled_counts[OF h1]
  note T2 = packGrid_scaled_counts[OF h2]
  have "max (sN1 (packGrid 50 40 100000 3)) (sN2 (packGrid 50 40 100000 3))
      \<le> getCapacity 50 40 3"
    using T2 n by blast
  then have t2: "max (sN1 (packGrid 50 40 100000 3)) (sN2 (packGrid 50 40 100000 3)) \<le> 208"
    by (simp only: c)
  have t1: "sN1 (packGrid 500 400 50 50) = 50 \<and> sN2 (packGrid 500 400 50 50) = 50"
    using T1 f by blast
  show ?thesis using h1 h2 g caps t1 t2 by blast
qed

text \<open>
  Claim C10, as stated, promises for every odds ratio \<open>OR > 0\<close> and every \<open>p0\<close> strictly
  between 0 and 1 that no square root is taken of a negative number. The ratio is an
  input of the same computation, and no calculator rejects a negative one: with 30%
  exposed controls, an odds ratio of 2 and the ratio \<open>-2\<close> the calculator calls the
  estimator, and the argument of the square root in \<open>term1\<close> is \<open>- 504 / 4225\<close>.
\<close>

theorem negative_ratio_sqrt_argument:
  "(0::real) < 2 \<and> (0::real) < 30 / 100 \<and> (30 / 100 :: real) < 1
   \<and> derived_P1 2 (30 / 100) = 6 / 13
   \<and> caseControl_calc 30 2 (- 2) 80 95 False =
       Computed
         (est_total (fleiss (calculateAdvanced (6 / 13) (3 / 10) (- 2) (1 / 20) (1 / 5) False)))
         (calculateAdvanced (6 / 13) (3 / 10) (- 2) (1 / 20) (1 / 5) False)
         \<lparr>vis_n1 = est_n2 (fleiss (calculateAdvanced (6 / 13) (3 / 10) (- 2) (1 / 20) (1 / 5) False)),
          vis_n2 = est_n1 (fleiss (calculateAdvanced (6 / 13) (3 / 10) (- 2) (1 / 20) (1 / 5) False)),
          label1 = ''Controls'', label2 = ''Cases''\<rparr>
   \<and> term1_arg (6 / 13) (3 / 10) (js_or (- 2) 1) = - 504 / 4225
   \<and> \<not> finite_run (getZAlpha 95) (getZBeta 80) (6 / 13) (3 / 10) (js_or (- 2) 1)"
  by (simp add: caseControl_calc_def Let_def derived_P1_def js_or_def js_or_int_def
      term1_arg_def p_avg_q_avg_def p_avg_def finite_run_def sqrt_args_def
      InfiniteSampleSize_def ImpossibleInputs_def)

text \<open>
  Claim C10, amended. For every odds ratio \<open>OR > 0\<close>, every \<open>p0\<close> strictly between 0 and
  1 and every ratio that is not negative, the divisor \<open>1 + p0 * (OR - 1)\<close> equals
  \<open>(1 - p0) + p0 * OR\<close> and is positive, and the derived \<open>p1\<close> lies strictly between 0
  and 1; whenever the calculator goes on to the estimator, every square root there is
  taken of a non-negative number and no divisor is zero, so that no \<open>NaN\<close> arises.
\<close>

theorem derived_P1_in_range:
  assumes "0 < OR" "0 < p_controls" "p_controls < 100" "0 \<le> ratio"
  shows "1 + (p_controls / 100) * (OR - 1) = (1 - p_controls / 100) + (p_controls / 100) * OR
    \<and> 0 < 1 + (p_controls / 100) * (OR - 1)
    \<and> 0 < derived_P1 OR (p_controls / 100) \<and> derived_P1 OR (p_controls / 100) < 1
    \<and> (caseControl_calc p_controls OR ratio pw conf dropout \<noteq> InfiniteSampleSize \<longrightarrow>
        caseControl_calc p_controls OR ratio pw conf dropout \<noteq> ImpossibleInputs \<longrightarrow>
          finite_run (getZAlpha ((1 - (100 - real_of_int (js_or_int conf 95)) / 100) * 100))
            (getZBeta ((1 - (100 - real_of_int pw) / 100) * 100))
            (derived_P1 OR (p_controls / 100)) (p_controls / 100) (js_or ratio 1))"
proof -
  have p: "0 < p_controls / 100" "p_controls / 100 < 1" using assms by simp_all
  note b = derived_P1_bounds[OF assms(1) p]
  have r: "0 < js_or ratio 1" using assms(4) by (simp add: js_or_def)
  have "finite_run za zb (derived_P1 OR (p_controls / 100)) (p_controls / 100) (js_or ratio 1)"
    if "caseControl_calc p_controls OR ratio pw conf dropout \<noteq> InfiniteSampleSize"
      and "0 < za" "0 < zb" for za zb
  proof -
    have "OR \<noteq> 1" using that(1) by (auto simp: caseControl_calc_def Let_def)
    then have "derived_P1 OR (p_controls / 100) \<noteq> p_controls / 100"
      using derived_P1_neq[OF assms(1) p] by simp
    then show ?thesis using b(3,4) p r that(2,3) by (intro finite_run_valid)
  qed
  then show ?thesis using b getZAlpha_pos getZBeta_pos by blast
qed

text \<open>30% exposed controls, an odds ratio of 2 and one control per case.\<close>

theorem derived_P1_in_range_witness:
  "(0::real) < 2 \<and> (0::real) < 30 \<and> (30::real) < 100 \<and> (0::real) \<le> 1
   \<and> caseControl_calc 30 2 1 80 95 False \<noteq> InfiniteSampleSize
   \<and> caseControl_calc 30 2 1 80 95 False \<noteq> ImpossibleInputs
   \<and> 0 < derived_P1 2 (30 / 100) \<and> derived_P1 2 (30 / 100) < 1
   \<and> finite_run (getZAlpha 95) (getZBeta 80) (derived_P1 2 (30 / 100)) (30 / 100) 1"
proof -
  have h: "(0::real) < 2" "(0::real) < 30" "(30::real) < 100" "(0::real) \<le> 1" by simp_all
  have c: "caseControl_calc 30 2 1 80 95 False \<noteq> InfiniteSampleSize"
    "caseControl_calc 30 2 1 80 95 False \<noteq> ImpossibleInputs"
    by (simp_all add: caseControl_calc_def Let_def derived_P1_def InfiniteSampleSize_def
        ImpossibleInputs_def)
  have "0 < derived_P1 2 (30 / 100) \<and> derived_P1 2 (30 / 100) < 1
   \<and> finite_run (getZAlpha 95) (getZBeta 80) (derived_P1 2 (30 / 100)) (30 / 100) 1"
    using c derived_P1_in_range[OF h, of 80 95 False]
    by (simp add: js_or_def js_or_int_def)
  then show ?thesis using h c by simp
qed


end
